theory Spec2Isabelle
  imports Complex_Main "HOL-Library.AList" "HOL-Library.Log_Nat"
begin

section \<open>Data model\<close>

text \<open>
  The program is the asynchronous function \<open>fetchData\<close> of \<open>src/App.jsx\<close>. It
  reads a user profile and the pages of the user's repositories from a REST source,
  counts the repositories per language, sums stars and forks, ranks the five most
  starred repositories and writes everything into the component's state. (The
  repository holds a second, smaller variant of the component; its \<open>fetchData\<close> has
  the same page loop and the same counting code, word for word, and neither the profile
  request nor the statistics nor the ranking.)

  JavaScript strings are modelled as \<open>string\<close>; a \<open>char\<close> stands for a code unit
  below 256. The lengths of lists and the counts of languages are modelled as \<open>nat\<close>:
  an array has fewer than \<open>2 ^ 32\<close> elements, and a double holds every integer up
  to \<open>2 ^ 53\<close>. A star or fork count of a record is a natural number that is a
  double. The sums of these counts and the average are computed in double arithmetic,
  which is modelled below.
\<close>

text \<open>A repository object of the source, reduced to the fields \<open>fetchData\<close> reads.
  A field that is \<open>null\<close> or absent is \<open>None\<close>.\<close>

record repository =
  r_name :: string
  language :: "string option"
  stargazers_count :: "nat option"
  forks_count :: "nat option"
  description :: "string option"
  html_url :: string

text \<open>The profile object is passed through to the state unchanged.\<close>

record user_profile =
  login :: string
  followers :: nat
  following :: nat
  public_repos :: nat
  public_gists :: nat

text \<open>
  What awaiting one request gives: the promise of \<open>fetch\<close> (or of \<open>json()\<close> on a
  successful response) rejects with an error carrying a message, or there is a response
  with its status, its status text and its parsed body.
\<close>

datatype 'a response = Rejected string | Response nat string 'a

text \<open>\<open>response.ok\<close>: the status is in the range 200 to 299.\<close>

definition ok :: "nat \<Rightarrow> bool" where
  "ok status = (200 \<le> status \<and> status \<le> 299)"

text \<open>
  What a call of \<open>fetchData\<close> meets outside the component. The REST source: its
  answer to the profile request, and its answer to the request for each page number (a
  page number is requested at most once in a run). The JavaScript engine: the order in
  which its sort leaves a list when the comparison function is not consistent. That
  order is the engine's choice; it can depend on the length of the list and on what
  the comparison function returns for the elements at any two positions, and it is
  given as the list of the positions in their new order.
\<close>

type_synonym sort_engine = "nat \<Rightarrow> (nat \<Rightarrow> nat \<Rightarrow> int option) \<Rightarrow> nat list"

record environment =
  user_response :: "user_profile response"
  page_response :: "nat \<Rightarrow> repository list response"
  sort_order :: sort_engine

datatype request = GetUser | GetRepos nat

section \<open>Errors\<close>

text \<open>Every error \<open>fetchData\<close> raises or reports, named after the category it stands
  for; \<open>Thrown\<close> is an error raised by the platform (a rejected promise).\<close>

datatype error =
    ValidationError
  | NotFound
  | RateLimited
  | Unauthorized
  | Unclassified nat string
  | EmptyResult
  | NoLanguageData
  | Thrown string

text \<open>The decimal digits of a number, as a template literal prints a status.\<close>

fun string_of_nat :: "nat \<Rightarrow> string" where
  "string_of_nat n =
     (if n < 10 then [''0123456789'' ! n]
      else string_of_nat (n div 10) @ [''0123456789'' ! (n mod 10)])"

declare string_of_nat.simps [simp del]

fun message :: "error \<Rightarrow> string" where
  "message ValidationError = ''Please enter a GitHub username first.''"
| "message NotFound = ''User not found. Check the username.''"
| "message RateLimited =
     ''API Rate limit exceeded. Wait a while or add a GitHub Token below.''"
| "message Unauthorized = ''Invalid GitHub Token.''"
| "message (Unclassified status statusText) =
     ''GitHub API Error: '' @ string_of_nat status @ '' '' @ statusText"
| "message EmptyResult = ''No public repositories found for this user.''"
| "message NoLanguageData = ''Repositories found, but no language data detected.''"
| "message (Thrown m) = m"

text \<open>The four \<open>throw\<close> statements under \<open>if (!userResponse.ok)\<close>, for the profile
  request.\<close>

definition classify_userResponse :: "nat \<Rightarrow> string \<Rightarrow> error" where
  "classify_userResponse status statusText =
     (if status = 404 then NotFound
      else if status = 403 then RateLimited
      else if status = 401 then Unauthorized
      else Unclassified status statusText)"

text \<open>The four \<open>throw\<close> statements under \<open>if (!response.ok)\<close>, inside the page
  loop.\<close>

definition classify_response :: "nat \<Rightarrow> string \<Rightarrow> error" where
  "classify_response status statusText =
     (if status = 404 then NotFound
      else if status = 403 then RateLimited
      else if status = 401 then Unauthorized
      else Unclassified status statusText)"

section \<open>The page loop\<close>

text \<open>
  \<^verbatim>\<open>
  let page = 1; let allRepos = [];
  while (true) {
    const response = await fetch(... page ...);
    if (!response.ok) { ... throw ... }
    const repos = await response.json();
    allRepos = allRepos.concat(repos);
    if (repos.length < perPage || page >= 10) break;
    page += 1;
  }
  \<close>
  The loop with the page size and the page bound as parameters; \<open>fetchData\<close> runs it
  with 100 and 10. The last argument is the list of page numbers requested so far, so
  that the result tells which requests were issued, in order.
\<close>

function fetchPages ::
  "nat \<Rightarrow> nat \<Rightarrow> (nat \<Rightarrow> repository list response) \<Rightarrow> nat \<Rightarrow> repository list \<Rightarrow> nat list
     \<Rightarrow> nat list \<times> (error + repository list)" where
  "fetchPages perPage maxPages src page allRepos issued =
     (case src page of
        Rejected m \<Rightarrow> (issued @ [page], Inl (Thrown m))
      | Response status statusText repos \<Rightarrow>
          if \<not> ok status then (issued @ [page], Inl (classify_response status statusText))
          else if length repos < perPage \<or> page \<ge> maxPages
            then (issued @ [page], Inr (allRepos @ repos))
            else fetchPages perPage maxPages src (page + 1) (allRepos @ repos)
                   (issued @ [page]))"
  by pat_completeness auto
termination
  by (relation "measure (\<lambda>(perPage, maxPages, src, page, allRepos, issued). maxPages - page)")
     auto

declare fetchPages.simps [simp del]

section \<open>The counting object\<close>

text \<open>
  \<^verbatim>\<open>
  const langMap = {};
  let hasLang = false;
  allRepos.forEach(repo => {
    if (repo.language) {
      langMap[repo.language] = (langMap[repo.language] || 0) + 1;
      hasLang = true;
    }
  });
  \<close>
  \<open>langMap\<close> is an ordinary object, so what the code reads and writes is decided by
  the rules for properties: a read falls back to \<open>Object.prototype\<close>, a write to
  \<open>__proto__\<close> runs a setter, and \<open>Object.keys\<close> lists the array indices first.
  The values the code meets are these.
\<close>

datatype jsval =
    Undefined
  | Num nat
  | Str string
  | Obj string  \<comment> \<open>an object or function, with the string it converts to\<close>

text \<open>The own properties of an object literal, in the order of their creation.\<close>

type_synonym js_object = "(string \<times> jsval) list"

text \<open>
  The properties every object inherits from \<open>Object.prototype\<close>, each with the string
  its value converts to: the text of a built-in function (the wording is the engine's;
  this is V8's), and for \<open>__proto__\<close> the prototype object itself.
\<close>

definition native_function :: "string \<Rightarrow> string" where
  "native_function f = ''function '' @ f @ ''() { [native code] }''"

definition object_prototype_functions :: "string list" where
  "object_prototype_functions =
     [''__defineGetter__'', ''__defineSetter__'', ''hasOwnProperty'', ''__lookupGetter__'',
      ''__lookupSetter__'', ''isPrototypeOf'', ''propertyIsEnumerable'', ''toString'',
      ''valueOf'', ''toLocaleString'']"

definition object_prototype :: "string \<Rightarrow> jsval" where
  "object_prototype k =
     (if k = ''constructor'' then Obj (native_function ''Object'')
      else if k = ''__proto__'' then Obj ''[object Object]''
      else if k \<in> set object_prototype_functions then Obj (native_function k)
      else Undefined)"

text \<open>\<open>obj[k]\<close>: the own property, else the inherited one, else \<open>undefined\<close>.\<close>

definition get_property :: "js_object \<Rightarrow> string \<Rightarrow> jsval" where
  "get_property obj k = (case map_of obj k of Some v \<Rightarrow> v | None \<Rightarrow> object_prototype k)"

text \<open>
  \<open>obj[k] = v\<close> for a primitive \<open>v\<close>: the setter of \<open>__proto__\<close> ignores a value that
  is neither an object nor \<open>null\<close>; any other name becomes or stays an own property, a
  new one after all the others.
\<close>

definition set_property :: "js_object \<Rightarrow> string \<Rightarrow> jsval \<Rightarrow> js_object" where
  "set_property obj k v = (if k = ''__proto__'' then obj else AList.update k v obj)"

text \<open>
  \<open>(x || 0) + 1\<close>: \<open>undefined\<close>, \<open>0\<close> and the empty string are falsy and give
  \<open>0 + 1\<close>; a number is incremented; a string or an object is converted to a string and
  the digit is appended.
\<close>

fun or_zero_plus_one :: "jsval \<Rightarrow> jsval" where
  "or_zero_plus_one Undefined = Num 1"
| "or_zero_plus_one (Num n) = Num (n + 1)"
| "or_zero_plus_one (Str s) = (if s = [] then Num 1 else Str (s @ ''1''))"
| "or_zero_plus_one (Obj t) = Str (t @ ''1'')"

text \<open>The callback of \<open>forEach\<close>, on the pair of \<open>langMap\<close> and \<open>hasLang\<close>. A
  language that is \<open>null\<close>, absent or the empty string is falsy.\<close>

fun count_repo :: "js_object \<times> bool \<Rightarrow> repository \<Rightarrow> js_object \<times> bool" where
  "count_repo (langMap, hasLang) repo =
     (case language repo of
        None \<Rightarrow> (langMap, hasLang)
      | Some l \<Rightarrow>
          if l = [] then (langMap, hasLang)
          else (set_property langMap l (or_zero_plus_one (get_property langMap l)), True))"

definition count_languages :: "repository list \<Rightarrow> js_object \<times> bool" where
  "count_languages allRepos = foldl count_repo ([], False) allRepos"

subsection \<open>\<open>Object.keys\<close>\<close>

definition is_digit :: "char \<Rightarrow> bool" where
  "is_digit c = (48 \<le> (of_char c :: nat) \<and> (of_char c :: nat) \<le> 57)"

definition nat_of_digits :: "string \<Rightarrow> nat" where
  "nat_of_digits s = foldl (\<lambda>n c. 10 * n + (of_char c - 48)) 0 s"

text \<open>An array index is the decimal form, without leading zeros, of a number up to
  \<open>2 ^ 32 - 2\<close>.\<close>

definition array_index :: "string \<Rightarrow> bool" where
  "array_index k =
     (k \<noteq> [] \<and> list_all is_digit k \<and> string_of_nat (nat_of_digits k) = k
      \<and> nat_of_digits k < 4294967295)"

text \<open>The order in which an object's own property names are listed: the array indices
  in ascending numeric order, then the other names in the order of their creation.\<close>

definition property_order :: "string list \<Rightarrow> string list" where
  "property_order ks =
     sort_key nat_of_digits (filter array_index ks) @ filter (\<lambda>k. \<not> array_index k) ks"

definition Object_keys :: "js_object \<Rightarrow> string list" where
  "Object_keys obj = property_order (map fst obj)"

section \<open>Numbers\<close>

text \<open>
  A JavaScript number is a double. The numbers that \<open>fetchData\<close> computes with are
  never negative: a finite one is given by its value, and there are \<open>Infinity\<close> and
  \<open>NaN\<close>.
\<close>

datatype number = Finite rat | Infinity | NaN

text \<open>The exponent of a positive number: \<open>2 ^ e \<le> x < 2 ^ (e + 1)\<close>.\<close>

definition exponent :: "rat \<Rightarrow> int" where
  "exponent x =
     (let (p, q) = quotient_of x; e = bitlen p - bitlen q
      in if 2 powi e \<le> x then e else e - 1)"

text \<open>The nearest integer, the even one at a tie.\<close>

definition round_half_even :: "rat \<Rightarrow> int" where
  "round_half_even q =
     (let f = \<lfloor>q\<rfloor>; d = q - of_int f
      in if d < 1 / 2 then f else if 1 / 2 < d then f + 1 else if even f then f else f + 1)"

text \<open>
  The result of an arithmetic operation is the double nearest to the exact result \<open>x\<close>
  (here \<open>x \<ge> 0\<close>): the nearest multiple of the unit in the last place, which is
  \<open>2 ^ (e - 52)\<close> for a number of exponent \<open>e\<close> and \<open>2 ^ (- 1074)\<close> below
  \<open>2 ^ (- 1022)\<close>; a tie goes to the even multiple, and a result of \<open>2 ^ 1024\<close> or
  more is \<open>Infinity\<close>.
\<close>

definition nearest_double :: "rat \<Rightarrow> number" where
  "nearest_double x =
     (if x \<le> 0 then Finite 0
      else
        let ulp = 2 powi (max (exponent x) (- 1022) - 52);
            r = of_int (round_half_even (x / ulp)) * ulp
        in if 2 powi 1024 \<le> r then Infinity else Finite r)"

text \<open>\<open>a + b\<close> and \<open>a / b\<close> on numbers that are not negative.\<close>

fun js_plus :: "number \<Rightarrow> number \<Rightarrow> number" where
  "js_plus (Finite a) (Finite b) = nearest_double (a + b)"
| "js_plus NaN _ = NaN"
| "js_plus _ NaN = NaN"
| "js_plus _ _ = Infinity"

fun js_divide :: "number \<Rightarrow> number \<Rightarrow> number" where
  "js_divide (Finite a) (Finite b) =
     (if b = 0 then (if a = 0 then NaN else Infinity) else nearest_double (a / b))"
| "js_divide (Finite a) Infinity = Finite 0"
| "js_divide Infinity (Finite b) = Infinity"
| "js_divide _ _ = NaN"

text \<open>\<open>Math.round\<close>: the nearest integer, the upper one at a tie. The result is a
  double without further rounding, since a double of \<open>2 ^ 52\<close> or more is an integer.\<close>

fun Math_round :: "number \<Rightarrow> number" where
  "Math_round (Finite x) = Finite (of_int \<lfloor>x + 1 / 2\<rfloor>)"
| "Math_round Infinity = Infinity"
| "Math_round NaN = NaN"

section \<open>Sorting\<close>

text \<open>
  \<open>Array.prototype.sort\<close> with a comparison function, whose result is a number or
  \<open>NaN\<close> (\<open>None\<close>). The language standard calls the function consistent for
  the values of a list when, on these values, it never returns \<open>NaN\<close>, every
  value is equal to itself, being equal is symmetric and transitive, and being less and
  being greater are transitive.
\<close>

definition below_zero :: "int option \<Rightarrow> bool" where
  "below_zero v = (case v of None \<Rightarrow> False | Some n \<Rightarrow> n < 0)"

definition above_zero :: "int option \<Rightarrow> bool" where
  "above_zero v = (case v of None \<Rightarrow> False | Some n \<Rightarrow> 0 < n)"

definition consistent :: "('a \<Rightarrow> 'a \<Rightarrow> int option) \<Rightarrow> 'a list \<Rightarrow> bool" where
  "consistent comparefn xs =
     (\<forall>a\<in>set xs. \<forall>b\<in>set xs. \<forall>c\<in>set xs.
        comparefn a b \<noteq> None
        \<and> comparefn a a = Some 0
        \<and> (comparefn a b = Some 0 \<longrightarrow> comparefn b a = Some 0)
        \<and> (comparefn a b = Some 0 \<and> comparefn b c = Some 0 \<longrightarrow> comparefn a c = Some 0)
        \<and> (below_zero (comparefn a b) \<and> below_zero (comparefn b c) \<longrightarrow>
             below_zero (comparefn a c))
        \<and> (above_zero (comparefn a b) \<and> above_zero (comparefn b c) \<longrightarrow>
             above_zero (comparefn a c)))"

text \<open>
  The sort is stable. With a consistent comparison function the sorted order is
  therefore unique, the same in every engine; straight insertion from the right
  produces it. With an inconsistent one the order is the engine's choice.
\<close>

definition compare_le :: "('a \<Rightarrow> 'a \<Rightarrow> int option) \<Rightarrow> 'a \<Rightarrow> 'a \<Rightarrow> bool" where
  "compare_le comparefn x y = (case comparefn x y of None \<Rightarrow> True | Some v \<Rightarrow> v \<le> 0)"

fun insert_sorted :: "('a \<Rightarrow> 'a \<Rightarrow> int option) \<Rightarrow> 'a \<Rightarrow> 'a list \<Rightarrow> 'a list" where
  "insert_sorted comparefn x [] = [x]"
| "insert_sorted comparefn x (y # ys) =
     (if compare_le comparefn x y then x # y # ys
      else y # insert_sorted comparefn x ys)"

definition stable_sort :: "('a \<Rightarrow> 'a \<Rightarrow> int option) \<Rightarrow> 'a list \<Rightarrow> 'a list" where
  "stable_sort comparefn xs = foldr (insert_sorted comparefn) xs []"

text \<open>The elements of a list at given positions (positions outside the list are
  passed over).\<close>

definition arrange :: "'a list \<Rightarrow> nat list \<Rightarrow> 'a list" where
  "arrange xs positions = map (\<lambda>i. xs ! i) (filter (\<lambda>i. i < length xs) positions)"

definition js_sort :: "sort_engine \<Rightarrow> ('a \<Rightarrow> 'a \<Rightarrow> int option) \<Rightarrow> 'a list \<Rightarrow> 'a list" where
  "js_sort engine comparefn xs =
     (if consistent comparefn xs then stable_sort comparefn xs
      else arrange xs (engine (length xs) (\<lambda>i j. comparefn (xs ! i) (xs ! j))))"

text \<open>
  \<open>b - a\<close> on the values met here. A number minus a number is their difference. A
  string converts to a number first; the strings that \<open>langMap\<close> can hold are the text
  of an inherited property followed by digits, which is no numeric literal, so the
  result is \<open>NaN\<close>.
\<close>

fun js_minus :: "jsval \<Rightarrow> jsval \<Rightarrow> int option" where
  "js_minus (Num b) (Num a) = Some (int b - int a)"
| "js_minus _ _ = None"

section \<open>The derived data\<close>

record LanguageCount =
  lc_name :: string
  lc_value :: jsval

text \<open>
  \<^verbatim>\<open>
  const processedData = Object.keys(langMap)
    .map(lang => ({ name: lang, value: langMap[lang] }))
    .sort((a, b) => b.value - a.value);
  \<close>
\<close>

definition processedData :: "sort_engine \<Rightarrow> js_object \<Rightarrow> LanguageCount list" where
  "processedData engine langMap =
     js_sort engine (\<lambda>a b. js_minus (lc_value b) (lc_value a))
       (map (\<lambda>lang. \<lparr>lc_name = lang, lc_value = get_property langMap lang\<rparr>)
          (Object_keys langMap))"

text \<open>\<open>x || 0\<close> on a count that may be missing.\<close>

fun or_zero :: "nat option \<Rightarrow> nat" where
  "or_zero None = 0"
| "or_zero (Some n) = n"

record repo_stats =
  totalStars :: number
  totalForks :: number
  avgStars :: number

text \<open>
  \<^verbatim>\<open>
  const totalStars = allRepos.reduce((sum, repo) => sum + (repo.stargazers_count || 0), 0);
  const totalForks = allRepos.reduce((sum, repo) => sum + (repo.forks_count || 0), 0);
  const avgStars = Math.round(totalStars / allRepos.length);
  \<close>
  Every addition and the division round to the nearest double. (\<open>fetchData\<close>
  computes these only after it has found \<open>allRepos\<close> non-empty; for the empty list
  the quotient is \<open>0 / 0\<close>, which is \<open>NaN\<close>.)
\<close>

definition sum_stars :: "repository list \<Rightarrow> number" where
  "sum_stars allRepos =
     foldl (\<lambda>sum repo. js_plus sum (Finite (of_nat (or_zero (stargazers_count repo)))))
       (Finite 0) allRepos"

definition sum_forks :: "repository list \<Rightarrow> number" where
  "sum_forks allRepos =
     foldl (\<lambda>sum repo. js_plus sum (Finite (of_nat (or_zero (forks_count repo)))))
       (Finite 0) allRepos"

definition compute_stats :: "repository list \<Rightarrow> repo_stats" where
  "compute_stats allRepos =
     \<lparr>totalStars = sum_stars allRepos,
      totalForks = sum_forks allRepos,
      avgStars = Math_round (js_divide (sum_stars allRepos) (Finite (of_nat (length allRepos))))\<rparr>"

record TopRepoEntry =
  t_name :: string
  stars :: "nat option"
  forks :: "nat option"
  t_description :: "string option"
  url :: string
  t_language :: "string option"

text \<open>
  \<^verbatim>\<open>
  const top5Repos = allRepos
    .sort((a, b) => (b.stargazers_count || 0) - (a.stargazers_count || 0))
    .slice(0, 5)
    .map(repo => ({ name: repo.name, stars: repo.stargazers_count, ... }));
  \<close>
  The sort uses the sign of the comparison function's result only, and the difference
  of two doubles has the sign of their exact difference.
\<close>

definition compare_stars :: "repository \<Rightarrow> repository \<Rightarrow> int option" where
  "compare_stars a b =
     Some (int (or_zero (stargazers_count b)) - int (or_zero (stargazers_count a)))"

definition top_entry :: "repository \<Rightarrow> TopRepoEntry" where
  "top_entry repo =
     \<lparr>t_name = r_name repo, stars = stargazers_count repo, forks = forks_count repo,
      t_description = description repo, url = html_url repo, t_language = language repo\<rparr>"

definition top5Repos :: "sort_engine \<Rightarrow> repository list \<Rightarrow> TopRepoEntry list" where
  "top5Repos engine allRepos = map top_entry (take 5 (js_sort engine compare_stars allRepos))"

section \<open>The component state and \<open>fetchData\<close>\<close>

record app_state =
  loading :: bool
  error :: "string option"
  data :: "LanguageCount list option"
  userProfile :: "user_profile option"
  topRepos :: "TopRepoEntry list"
  repoStats :: repo_stats
  repoCount :: nat

text \<open>The state a freshly mounted component starts from.\<close>

definition initial_state :: app_state where
  "initial_state =
     \<lparr>loading = False, error = None, data = None, userProfile = None, topRepos = [],
      repoStats = \<lparr>totalStars = Finite 0, totalForks = Finite 0, avgStars = Finite 0\<rparr>,
      repoCount = 0\<rparr>"

text \<open>\<open>String.prototype.trim\<close> removes white space and line terminators at both
  ends; below 256 these are the code units 9 to 13, 32 and 160.\<close>

definition white_space :: "char \<Rightarrow> bool" where
  "white_space c = ((of_char c :: nat) \<in> {9, 10, 11, 12, 13, 32, 160})"

definition trim :: "string \<Rightarrow> string" where
  "trim s = rev (dropWhile white_space (rev (dropWhile white_space s)))"

text \<open>\<open>catch (err) { setError(err.message) } finally { setLoading(false) }\<close>\<close>

definition failed :: "app_state \<Rightarrow> error \<Rightarrow> app_state" where
  "failed s e = s\<lparr>error := Some (message e), loading := False\<rparr>"

text \<open>The four setters that follow a passed validation.\<close>

definition begin_attempt :: "app_state \<Rightarrow> app_state" where
  "begin_attempt s = s\<lparr>loading := True, error := None, data := None, userProfile := None\<rparr>"

text \<open>The part of \<open>fetchData\<close> after the page loop, from \<open>setRepoCount\<close> on, in
  a given engine.\<close>

definition after_loop :: "sort_engine \<Rightarrow> repository list \<Rightarrow> app_state \<Rightarrow> app_state" where
  "after_loop engine allRepos s =
     (let s1 = s\<lparr>repoCount := length allRepos\<rparr> in
      if allRepos = [] then failed s1 EmptyResult
      else
        let (langMap, hasLang) = count_languages allRepos in
        if \<not> hasLang then failed s1 NoLanguageData
        else s1\<lparr>repoStats := compute_stats allRepos,
                topRepos := top5Repos engine allRepos,
                data := Some (processedData engine langMap),
                loading := False\<rparr>)"

text \<open>
  \<open>fetchData\<close>, from the state before the call to the state after it, with the
  requests it issued in order. The page loop runs with \<open>perPage = 100\<close> and the bound
  of 10 pages.
\<close>

definition fetchData :: "environment \<Rightarrow> string \<Rightarrow> app_state \<Rightarrow> request list \<times> app_state" where
  "fetchData src userToFetch s =
     (if trim userToFetch = [] then ([], s\<lparr>error := Some (message ValidationError)\<rparr>)
      else
        case user_response src of
          Rejected m \<Rightarrow> ([GetUser], failed (begin_attempt s) (Thrown m))
        | Response status statusText profile \<Rightarrow>
            if \<not> ok status
            then ([GetUser], failed (begin_attempt s) (classify_userResponse status statusText))
            else
              let s1 = (begin_attempt s)\<lparr>userProfile := Some profile\<rparr> in
              case fetchPages 100 10 (page_response src) 1 [] [] of
                (issued, result) \<Rightarrow>
                  (GetUser # map GetRepos issued,
                   case result of
                     Inl e \<Rightarrow> failed s1 e
                   | Inr allRepos \<Rightarrow> after_loop (sort_order src) allRepos s1))"

section \<open>Notions used in the statements\<close>

text \<open>What a page request gives, read off the source: the items of the page (none when
  the request is rejected), whether the response is a success, and the error the loop
  raises when it is not.\<close>

definition page_items :: "(nat \<Rightarrow> repository list response) \<Rightarrow> nat \<Rightarrow> repository list" where
  "page_items src p = (case src p of Rejected m \<Rightarrow> [] | Response status statusText repos \<Rightarrow> repos)"

definition page_ok :: "(nat \<Rightarrow> repository list response) \<Rightarrow> nat \<Rightarrow> bool" where
  "page_ok src p = (case src p of Rejected m \<Rightarrow> False | Response status statusText repos \<Rightarrow> ok status)"

definition page_error :: "(nat \<Rightarrow> repository list response) \<Rightarrow> nat \<Rightarrow> error" where
  "page_error src p =
     (case src p of Rejected m \<Rightarrow> Thrown m
      | Response status statusText repos \<Rightarrow> classify_response status statusText)"

text \<open>A record carries a language when the field is a non-empty string.\<close>

definition has_language :: "repository \<Rightarrow> bool" where
  "has_language repo = (case language repo of None \<Rightarrow> False | Some l \<Rightarrow> l \<noteq> [])"

text \<open>The language names that are counted, in the order of the records.\<close>

definition languages_of :: "repository list \<Rightarrow> string list" where
  "languages_of repos = map (\<lambda>r. the (language r)) (filter has_language repos)"

text \<open>The distinct elements of a list in the order of their first occurrence.\<close>

fun first_seen :: "'a list \<Rightarrow> 'a list" where
  "first_seen [] = []"
| "first_seen (x # xs) = x # filter (\<lambda>y. y \<noteq> x) (first_seen xs)"



text \<open>The count an entry of the histogram holds, when its value is a number.\<close>

definition count_of :: "LanguageCount \<Rightarrow> nat" where
  "count_of e = (case lc_value e of Num n \<Rightarrow> n | _ \<Rightarrow> 0)"

text \<open>The histogram of a list of records, as \<open>fetchData\<close> builds it in a given
  engine.\<close>

definition histogram :: "sort_engine \<Rightarrow> repository list \<Rightarrow> LanguageCount list" where
  "histogram engine repos = processedData engine (fst (count_languages repos))"

text \<open>The results section of the page is rendered under \<open>data && userProfile\<close>;
  an array, even an empty one, and an object are truthy.\<close>

definition results_shown :: "app_state \<Rightarrow> bool" where
  "results_shown s = (data s \<noteq> None \<and> userProfile s \<noteq> None)"

section \<open>Sample inputs\<close>

text \<open>An engine that leaves a list as it is when the comparison function is not
  consistent.\<close>

definition in_place :: sort_engine where
  "in_place n comparefn = [0..<n]"

text \<open>A record with a given language and star count.\<close>

definition repo_with :: "string option \<Rightarrow> nat option \<Rightarrow> repository" where
  "repo_with l n =
     \<lparr>r_name = ''r'', language = l, stargazers_count = n, forks_count = None,
      description = None, html_url = ''u''\<rparr>"

text \<open>The records of the specification's end-to-end example.\<close>

definition end_to_end :: "repository list" where
  "end_to_end =
     [repo_with (Some ''Go'') (Some 10), repo_with (Some ''Go'') (Some 5),
      repo_with None (Some 1), repo_with (Some ''Rust'') (Some 20)]"



text \<open>A profile.\<close>

definition sample_profile :: user_profile where
  "sample_profile =
     \<lparr>login = ''octocat'', followers = 3, following = 1, public_repos = 101, public_gists = 0\<rparr>"

text \<open>Full pages 1 to 3 and a fourth page one item short.\<close>

definition short_fourth :: "nat \<Rightarrow> repository list response" where
  "short_fourth p = Response 200 ''OK'' (replicate (if p < 4 then 100 else 99) (repo_with None None))"

text \<open>A source whose every page is full.\<close>

definition always_full :: "nat \<Rightarrow> repository list response" where
  "always_full p = Response 200 ''OK'' (replicate 100 (repo_with None None))"

text \<open>A source that ignores \<open>per_page\<close> and sends 101 items on every page.\<close>

definition oversized :: "nat \<Rightarrow> repository list response" where
  "oversized p = Response 200 ''OK'' (replicate 101 (repo_with None None))"

text \<open>A source that answers the profile request and page 1, and refuses page 2.\<close>

definition forbidden_second :: environment where
  "forbidden_second =
     \<lparr>user_response = Response 200 ''OK'' sample_profile,
      page_response = (\<lambda>p. if p = 1 then Response 200 ''OK'' (replicate 100 (repo_with (Some ''Go'') None))
                           else Response 403 ''Forbidden'' []),
      sort_order = in_place\<rparr>"

text \<open>A source that refuses the profile request with status 500.\<close>

definition server_error :: environment where
  "server_error =
     \<lparr>user_response = Response 500 ''Internal Server Error'' sample_profile,
      page_response = (\<lambda>p. Response 200 ''OK'' []),
      sort_order = in_place\<rparr>"

text \<open>A source with a single short page.\<close>

definition single_page :: "repository list \<Rightarrow> environment" where
  "single_page repos =
     \<lparr>user_response = Response 200 ''OK'' sample_profile,
      page_response = (\<lambda>p. Response 200 ''OK'' repos),
      sort_order = in_place\<rparr>"

section \<open>Properties of the page loop\<close>

lemma fetchPages_fail:
  "\<not> page_ok src page \<Longrightarrow>
   fetchPages perPage maxPages src page allRepos issued = (issued @ [page], Inl (page_error src page))"
  by (cases "src page") (simp_all add: fetchPages.simps[of _ _ _ page] page_ok_def page_error_def)

lemma fetchPages_stop:
  "page_ok src page \<Longrightarrow> length (page_items src page) < perPage \<or> maxPages \<le> page \<Longrightarrow>
   fetchPages perPage maxPages src page allRepos issued =
     (issued @ [page], Inr (allRepos @ page_items src page))"
  by (auto simp add: fetchPages.simps[of _ _ _ page] page_ok_def page_items_def split: response.splits)

lemma fetchPages_continue:
  "page_ok src page \<Longrightarrow> \<not> length (page_items src page) < perPage \<Longrightarrow> page < maxPages \<Longrightarrow>
   fetchPages perPage maxPages src page allRepos issued =
     fetchPages perPage maxPages src (Suc page) (allRepos @ page_items src page) (issued @ [page])"
  by (auto simp add: fetchPages.simps[of _ _ _ page] page_ok_def page_items_def split: response.splits)

text \<open>The shape of every run: \<open>n\<close> further requests follow the one for \<open>page\<close>.\<close>

lemma fetchPages_run:
  "\<exists>n. fst (fetchPages perPage maxPages src page allRepos issued) = issued @ [page..<Suc (page + n)]
     \<and> page + n \<le> max page maxPages
     \<and> (\<forall>p\<in>{page..<page + n}. page_ok src p \<and> \<not> length (page_items src p) < perPage)
     \<and> snd (fetchPages perPage maxPages src page allRepos issued) =
         (if page_ok src (page + n)
          then Inr (allRepos @ concat (map (page_items src) [page..<Suc (page + n)]))
          else Inl (page_error src (page + n)))
     \<and> (page_ok src (page + n) \<longrightarrow>
          length (page_items src (page + n)) < perPage \<or> maxPages \<le> page + n)"
proof (induction perPage maxPages src page allRepos issued rule: fetchPages.induct)
  case (1 perPage maxPages src page allRepos issued)
  show ?case
  proof (cases "page_ok src page")
    case False
    then show ?thesis
      by (intro exI[of _ 0]) (simp add: fetchPages_fail)
  next
    case True
    show ?thesis
    proof (cases "length (page_items src page) < perPage \<or> maxPages \<le> page")
      case stop: True
      with True show ?thesis
        by (intro exI[of _ 0]) (simp add: fetchPages_stop)
    next
      case go: False
      from True obtain st tx repos where r: "src page = Response st tx repos" "ok st"
        by (auto simp: page_ok_def split: response.splits)
      have items: "page_items src page = repos" using r by (simp add: page_items_def)
      from go items have c: "\<not> (length repos < perPage \<or> maxPages \<le> page)" by simp
      from "1.IH"[OF r(1) _ c] r(2)
      obtain n where n:
        "fst (fetchPages perPage maxPages src (page + 1) (allRepos @ repos) (issued @ [page]))
           = (issued @ [page]) @ [page + 1..<Suc (page + 1 + n)]"
        "page + 1 + n \<le> max (page + 1) maxPages"
        "\<forall>p\<in>{page + 1..<page + 1 + n}. page_ok src p \<and> \<not> length (page_items src p) < perPage"
        "snd (fetchPages perPage maxPages src (page + 1) (allRepos @ repos) (issued @ [page])) =
         (if page_ok src (page + 1 + n)
          then Inr ((allRepos @ repos) @ concat (map (page_items src) [page + 1..<Suc (page + 1 + n)]))
          else Inl (page_error src (page + 1 + n)))"
        "page_ok src (page + 1 + n) \<longrightarrow>
          length (page_items src (page + 1 + n)) < perPage \<or> maxPages \<le> page + 1 + n"
        by auto
      have step: "fetchPages perPage maxPages src page allRepos issued =
                  fetchPages perPage maxPages src (page + 1) (allRepos @ repos) (issued @ [page])"
        using fetchPages_continue[of src page perPage maxPages] True go items by simp
      have up: "[page..<Suc (page + Suc n)] = page # [page + 1..<Suc (page + 1 + n)]"
        by (simp add: upt_conv_Cons)
      have all: "\<forall>p\<in>{page..<page + Suc n}. page_ok src p \<and> \<not> length (page_items src p) < perPage"
      proof
        fix p assume "p \<in> {page..<page + Suc n}"
        then have "p = page \<or> p \<in> {page + 1..<page + 1 + n}" by auto
        then show "page_ok src p \<and> \<not> length (page_items src p) < perPage"
          using True go n(3) by auto
      qed
      show ?thesis
        apply (intro exI[of _ "Suc n"])
        apply (intro conjI)
        subgoal using n(1) step up by simp
        subgoal using n(2) go by simp
        subgoal using all .
        subgoal using n(4) step up items by simp
        subgoal using n(5) by simp
        done
    qed
  qed
qed

lemma fetchPages_full:
  assumes "\<forall>p. page_ok src p \<and> \<not> length (page_items src p) < perPage"
  shows "page \<le> maxPages \<Longrightarrow>
     fetchPages perPage maxPages src page allRepos issued =
       (issued @ [page..<Suc maxPages],
        Inr (allRepos @ concat (map (page_items src) [page..<Suc maxPages])))"
proof (induction "maxPages - page" arbitrary: page allRepos issued)
  case 0
  then have "page = maxPages" by simp
  then show ?case using assms by (simp add: fetchPages_stop)
next
  case (Suc d)
  then have lt: "page < maxPages" by simp
  have "fetchPages perPage maxPages src page allRepos issued =
        fetchPages perPage maxPages src (Suc page) (allRepos @ page_items src page) (issued @ [page])"
    using assms lt by (simp add: fetchPages_continue)
  also have "\<dots> = ((issued @ [page]) @ [Suc page..<Suc maxPages],
        Inr ((allRepos @ page_items src page) @ concat (map (page_items src) [Suc page..<Suc maxPages])))"
    using Suc lt by (intro Suc.hyps(1)) auto
  also have "\<dots> = (issued @ [page..<Suc maxPages],
        Inr (allRepos @ concat (map (page_items src) [page..<Suc maxPages])))"
    using lt by (simp add: upt_conv_Cons[of page])
  finally show ?case .
qed

lemma length_concat_le:
  "(\<forall>x\<in>set xs. length (f x) \<le> b) \<Longrightarrow> length (concat (map f xs)) \<le> b * length xs"
  by (induction xs) (auto simp: algebra_simps)

lemma length_concat_eq:
  "(\<forall>x\<in>set xs. length (f x) = b) \<Longrightarrow> length (concat (map f xs)) = b * length xs"
  by (induction xs) (auto simp: algebra_simps)

text \<open>
  Claim C4. The loop requests the pages 1, 2, ..., N in this order, one after the other.
  A successful page with fewer items than \<open>perPage\<close> is the last page requested. A
  run that succeeds returns the items of the requested pages, concatenated in the order
  of the requests. With full pages 1 to 3 and \<open>perPage - 1\<close> items on page 4 there
  are exactly the four requests 1, 2, 3, 4 and \<open>3 * perPage + (perPage - 1)\<close> items.
\<close>

theorem paginator_order_and_stop:
  "(\<exists>N\<ge>1. fst (fetchPages perPage maxPages src 1 [] []) = [1..<Suc N])
   \<and> (\<forall>p\<in>set (fst (fetchPages perPage maxPages src 1 [] [])).
        page_ok src p \<and> length (page_items src p) < perPage \<longrightarrow>
        p = last (fst (fetchPages perPage maxPages src 1 [] [])))
   \<and> (\<forall>allRepos. snd (fetchPages perPage maxPages src 1 [] []) = Inr allRepos \<longrightarrow>
        allRepos = concat (map (page_items src) (fst (fetchPages perPage maxPages src 1 [] []))))
   \<and> (0 < perPage \<and> 4 \<le> maxPages
        \<and> (\<forall>p\<in>{1, 2, 3}. page_ok src p \<and> length (page_items src p) = perPage)
        \<and> page_ok src 4 \<and> length (page_items src 4) = perPage - 1 \<longrightarrow>
      fst (fetchPages perPage maxPages src 1 [] []) = [1, 2, 3, 4]
      \<and> (\<exists>allRepos. snd (fetchPages perPage maxPages src 1 [] []) = Inr allRepos
            \<and> length allRepos = 3 * perPage + (perPage - 1)))"
proof -
  let ?run = "fetchPages perPage maxPages src 1 [] []"
  from fetchPages_run[of perPage maxPages src 1 "[]" "[]"]
  obtain n where n:
    "fst ?run = [1..<Suc (1 + n)]"
    "\<forall>p\<in>{1..<1 + n}. page_ok src p \<and> \<not> length (page_items src p) < perPage"
    "snd ?run = (if page_ok src (1 + n)
          then Inr (concat (map (page_items src) [1..<Suc (1 + n)]))
          else Inl (page_error src (1 + n)))"
    by auto
  have a: "\<exists>N\<ge>1. fst ?run = [1..<Suc N]"
    using n(1) by (intro exI[of _ "1 + n"]) simp
  have lst: "last (fst ?run) = 1 + n"
    using n(1) by simp
  have b: "\<forall>p\<in>set (fst ?run). page_ok src p \<and> length (page_items src p) < perPage \<longrightarrow>
        p = last (fst ?run)"
  proof (intro ballI impI)
    fix p assume p: "p \<in> set (fst ?run)" "page_ok src p \<and> length (page_items src p) < perPage"
    from p(1) n(1) have "p \<in> {1..<1 + n} \<or> p = 1 + n" by auto
    with p(2) n(2) show "p = last (fst ?run)" using lst by auto
  qed
  have c: "\<forall>allRepos. snd ?run = Inr allRepos \<longrightarrow>
        allRepos = concat (map (page_items src) (fst ?run))"
    using n(1) n(3) by (auto split: if_splits)
  have d: "fst ?run = [1, 2, 3, 4]
      \<and> (\<exists>allRepos. snd ?run = Inr allRepos \<and> length allRepos = 3 * perPage + (perPage - 1))"
    if h: "0 < perPage \<and> 4 \<le> maxPages
        \<and> (\<forall>p\<in>{1, 2, 3}. page_ok src p \<and> length (page_items src p) = perPage)
        \<and> page_ok src 4 \<and> length (page_items src 4) = perPage - 1"
  proof -
    have f1: "page_ok src (Suc 0)" "length (page_items src (Suc 0)) = perPage"
      and f2: "page_ok src 2" "length (page_items src 2) = perPage"
      and f3: "page_ok src 3" "length (page_items src 3) = perPage"
      using h by auto
    have s2: "Suc (Suc 0) = 2" and s3: "Suc 2 = 3" and s4: "Suc 3 = 4" by simp_all
    have "?run = fetchPages perPage maxPages src 2 (page_items src 1) [1]"
      using h f1 by (simp add: fetchPages_continue s2)
    also have "\<dots> = fetchPages perPage maxPages src 3 (page_items src 1 @ page_items src 2) [1, 2]"
      using h f2 by (simp add: fetchPages_continue s3)
    also have "\<dots> = fetchPages perPage maxPages src 4
                       (page_items src 1 @ page_items src 2 @ page_items src 3) [1, 2, 3]"
      using h f3 by (simp add: fetchPages_continue s4)
    also have "\<dots> = ([1, 2, 3, 4],
        Inr (page_items src 1 @ page_items src 2 @ page_items src 3 @ page_items src 4))"
      using h by (simp add: fetchPages_stop)
    finally have "?run = ([1, 2, 3, 4],
        Inr (page_items src 1 @ page_items src 2 @ page_items src 3 @ page_items src 4))" .
    then show ?thesis using f1 f2 f3 h by simp
  qed
  from a b c d show ?thesis by blast
qed

theorem paginator_order_and_stop_witness:
  "fst (fetchPages 100 10 short_fourth 1 [] []) = [1, 2, 3, 4]
   \<and> (\<exists>allRepos. snd (fetchPages 100 10 short_fourth 1 [] []) = Inr allRepos
         \<and> length allRepos = 399)"
  using paginator_order_and_stop[of 100 10 short_fourth]
  by (simp add: page_ok_def page_items_def short_fourth_def ok_def)

section \<open>The bound on the page loop\<close>

lemma fetchPages_length_le:
  "length (fst (fetchPages perPage maxPages src 1 [] [])) \<le> max 1 maxPages"
proof -
  from fetchPages_run[of perPage maxPages src 1 "[]" "[]"]
  obtain n where "fst (fetchPages perPage maxPages src 1 [] []) = [] @ [1..<Suc (1 + n)]"
    "1 + n \<le> max 1 maxPages" by blast
  then show ?thesis by (simp del: upt_Suc)
qed

text \<open>
  Claim C5, as amended. For every source the loop ends, after at most \<open>maxPages\<close>
  requests (the one request it always makes when \<open>maxPages\<close> is 0 apart). Against a
  source whose every page is full it issues the requests 1 to \<open>maxPages\<close> and
  returns \<open>maxPages * perPage\<close> items. The items returned are at most
  \<open>perPage * maxPages\<close> when no page holds more than \<open>perPage\<close> items; the loop
  itself never compares a page's length with an upper bound.
\<close>

theorem paginator_bound:
  "length (fst (fetchPages perPage maxPages src 1 [] [])) \<le> max 1 maxPages
   \<and> (1 \<le> maxPages \<and> (\<forall>p. page_ok src p \<and> length (page_items src p) = perPage) \<longrightarrow>
        fst (fetchPages perPage maxPages src 1 [] []) = [1..<Suc maxPages]
        \<and> (\<exists>allRepos. snd (fetchPages perPage maxPages src 1 [] []) = Inr allRepos
              \<and> length allRepos = maxPages * perPage))
   \<and> ((\<forall>p. length (page_items src p) \<le> perPage) \<longrightarrow>
        (\<forall>allRepos. snd (fetchPages perPage maxPages src 1 [] []) = Inr allRepos \<longrightarrow>
           length allRepos \<le> perPage * max 1 maxPages))"
proof -
  let ?run = "fetchPages perPage maxPages src 1 [] []"
  have a: "length (fst ?run) \<le> max 1 maxPages"
    by (rule fetchPages_length_le)
  have b: "fst ?run = [1..<Suc maxPages]
        \<and> (\<exists>allRepos. snd ?run = Inr allRepos \<and> length allRepos = maxPages * perPage)"
    if h: "1 \<le> maxPages \<and> (\<forall>p. page_ok src p \<and> length (page_items src p) = perPage)"
  proof -
    from h have full: "\<forall>p. page_ok src p \<and> \<not> length (page_items src p) < perPage" by simp
    have run: "?run = ([1..<Suc maxPages], Inr (concat (map (page_items src) [1..<Suc maxPages])))"
      using fetchPages_full[OF full, of 1 maxPages "[]" "[]"] h by simp
    have "length (concat (map (page_items src) [1..<Suc maxPages])) = perPage * length [1..<Suc maxPages]"
      using h by (intro length_concat_eq) simp
    then show ?thesis using run by (simp add: mult.commute)
  qed
  have c: "\<forall>allRepos. snd ?run = Inr allRepos \<longrightarrow> length allRepos \<le> perPage * max 1 maxPages"
    if h: "\<forall>p. length (page_items src p) \<le> perPage"
  proof (intro allI impI)
    fix allRepos assume r: "snd ?run = Inr allRepos"
    from fetchPages_run[of perPage maxPages src 1 "[]" "[]"]
    obtain n where n: "1 + n \<le> max 1 maxPages"
      "snd ?run = (if page_ok src (1 + n)
          then Inr ([] @ concat (map (page_items src) [1..<Suc (1 + n)]))
          else Inl (page_error src (1 + n)))" by blast
    from r n(2) have "allRepos = concat (map (page_items src) [1..<Suc (1 + n)])"
      by (simp split: if_splits)
    moreover have "length (concat (map (page_items src) [1..<Suc (1 + n)]))
                     \<le> perPage * length [1..<Suc (1 + n)]"
      using h by (intro length_concat_le) simp
    moreover have "perPage * length [1..<Suc (1 + n)] \<le> perPage * max 1 maxPages"
      using n(1) by (intro mult_le_mono2) (simp del: upt_Suc)
    ultimately show "length allRepos \<le> perPage * max 1 maxPages" by simp
  qed
  from a b c show ?thesis by blast
qed

theorem paginator_bound_witness:
  "length (fst (fetchPages 100 10 always_full 1 [] [])) \<le> 10
   \<and> fst (fetchPages 100 10 always_full 1 [] []) = [1..<11]
   \<and> (\<exists>allRepos. snd (fetchPages 100 10 always_full 1 [] []) = Inr allRepos
         \<and> length allRepos = 1000 \<and> length allRepos \<le> 100 * 10)"
  using paginator_bound[of 100 10 always_full]
  by (auto simp add: page_ok_def page_items_def always_full_def ok_def)

text \<open>With 101 items on every page the ten requests return 1010 items, more than
  \<open>100 * 10\<close>.\<close>

theorem paginator_cap_counterexample:
  "map_sum id length (snd (fetchPages 100 10 oversized 1 [] [])) = Inr 1010"
proof -
  have full: "\<forall>p. page_ok oversized p \<and> \<not> length (page_items oversized p) < 100"
    by (simp add: page_ok_def page_items_def oversized_def ok_def)
  have "length (concat (map (page_items oversized) [1..<Suc 10])) = 101 * length [1..<Suc 10]"
    by (intro length_concat_eq) (simp add: page_items_def oversized_def)
  then show ?thesis
    using fetchPages_full[OF full, of 1 10 "[]" "[]"] by simp
qed

section \<open>The branches of \<open>fetchData\<close>\<close>

lemma fetchData_validation:
  "trim userToFetch = [] \<Longrightarrow>
   fetchData src userToFetch s = ([], s\<lparr>error := Some (message ValidationError)\<rparr>)"
  by (simp add: fetchData_def)

lemma fetchData_user_rejected:
  "trim userToFetch \<noteq> [] \<Longrightarrow> user_response src = Rejected m \<Longrightarrow>
   fetchData src userToFetch s = ([GetUser], failed (begin_attempt s) (Thrown m))"
  by (simp add: fetchData_def)

lemma fetchData_user_failed:
  "trim userToFetch \<noteq> [] \<Longrightarrow> user_response src = Response status statusText profile \<Longrightarrow>
   \<not> ok status \<Longrightarrow>
   fetchData src userToFetch s =
     ([GetUser], failed (begin_attempt s) (classify_userResponse status statusText))"
  by (simp add: fetchData_def)

lemma fetchData_pages:
  "trim userToFetch \<noteq> [] \<Longrightarrow> user_response src = Response status statusText profile \<Longrightarrow>
   ok status \<Longrightarrow>
   fetchData src userToFetch s =
     (GetUser # map GetRepos (fst (fetchPages 100 10 (page_response src) 1 [] [])),
      case snd (fetchPages 100 10 (page_response src) 1 [] []) of
        Inl e \<Rightarrow> failed ((begin_attempt s)\<lparr>userProfile := Some profile\<rparr>) e
      | Inr allRepos \<Rightarrow> after_loop (sort_order src) allRepos ((begin_attempt s)\<lparr>userProfile := Some profile\<rparr>))"
  by (simp add: fetchData_def Let_def split: prod.splits)

lemma fetchData_page_requested:
  assumes "GetRepos p \<in> set (fst (fetchData src userToFetch s))"
  obtains status statusText profile where
    "trim userToFetch \<noteq> []" "user_response src = Response status statusText profile" "ok status"
    "p \<in> set (fst (fetchPages 100 10 (page_response src) 1 [] []))"
proof (cases "trim userToFetch = []")
  case True
  with assms show ?thesis by (simp add: fetchData_validation)
next
  case ne: False
  show ?thesis
  proof (cases "user_response src")
    case (Rejected m)
    with assms ne show ?thesis by (simp add: fetchData_user_rejected)
  next
    case (Response status statusText profile)
    show ?thesis
    proof (cases "ok status")
      case False
      with assms ne Response show ?thesis by (simp add: fetchData_user_failed)
    next
      case True
      with assms ne Response have "p \<in> set (fst (fetchPages 100 10 (page_response src) 1 [] []))"
        by (auto simp add: fetchData_pages)
      with ne Response True show ?thesis by (rule that)
    qed
  qed
qed

lemma fetchPages_failed_page:
  assumes "p \<in> set (fst (fetchPages perPage maxPages src 1 [] []))" "\<not> page_ok src p"
  shows "last (fst (fetchPages perPage maxPages src 1 [] [])) = p
         \<and> snd (fetchPages perPage maxPages src 1 [] []) = Inl (page_error src p)"
proof -
  let ?run = "fetchPages perPage maxPages src 1 [] []"
  from fetchPages_run[of perPage maxPages src 1 "[]" "[]"]
  obtain n where n:
    "fst ?run = [1..<Suc (1 + n)]"
    "\<forall>p\<in>{1..<1 + n}. page_ok src p \<and> \<not> length (page_items src p) < perPage"
    "snd ?run = (if page_ok src (1 + n)
          then Inr (concat (map (page_items src) [1..<Suc (1 + n)]))
          else Inl (page_error src (1 + n)))"
    by auto
  from assms(1) n(1) have "p \<in> {1..<1 + n} \<or> p = 1 + n" by auto
  with assms(2) n(2) have p: "p = 1 + n" by auto
  then show ?thesis using n(1) n(3) assms(2) by simp
qed

text \<open>
  Claim C7. When a page request that \<open>fetchData\<close> issued is answered with a status
  outside 200 to 299, that request is the last one, the loop ends with the classified
  error and no items, the error's message is in the state, and nothing of the pages
  fetched before reaches the state: \<open>data\<close> is \<open>null\<close>, and \<open>topRepos\<close>,
  \<open>repoStats\<close> and \<open>repoCount\<close> are what they were before the call.
\<close>

theorem page_failure_aborts:
  assumes "fetchData src userToFetch s = (reqs, s')"
    and "GetRepos p \<in> set reqs"
    and "page_response src p = Response status statusText repos"
    and "\<not> ok status"
  shows "last reqs = GetRepos p
         \<and> snd (fetchPages 100 10 (page_response src) 1 [] []) =
             Inl (classify_response status statusText)
         \<and> error s' = Some (message (classify_response status statusText))
         \<and> data s' = None \<and> loading s' = False
         \<and> topRepos s' = topRepos s \<and> repoStats s' = repoStats s \<and> repoCount s' = repoCount s"
proof -
  let ?run = "fetchPages 100 10 (page_response src) 1 [] []"
  from assms(1,2) have "GetRepos p \<in> set (fst (fetchData src userToFetch s))" by simp
  then obtain ust utx profile where u:
    "trim userToFetch \<noteq> []" "user_response src = Response ust utx profile" "ok ust"
    "p \<in> set (fst ?run)"
    by (rule fetchData_page_requested)
  have bad: "\<not> page_ok (page_response src) p"
    using assms(3,4) by (simp add: page_ok_def)
  have err: "page_error (page_response src) p = classify_response status statusText"
    using assms(3) by (simp add: page_error_def)
  from fetchPages_failed_page[OF u(4) bad] err
  have run: "last (fst ?run) = p" "snd ?run = Inl (classify_response status statusText)"
    by simp_all
  have ne: "fst ?run \<noteq> []" using u(4) by auto
  from assms(1) fetchData_pages[OF u(1,2,3), of s] run(2)
  have reqs: "reqs = GetUser # map GetRepos (fst ?run)"
    and s': "s' = failed ((begin_attempt s)\<lparr>userProfile := Some profile\<rparr>)
                    (classify_response status statusText)"
    by simp_all
  have "last reqs = GetRepos p"
    using reqs ne run(1) by (simp add: last_map)
  then show ?thesis
    using run(2) s' by (simp add: failed_def begin_attempt_def)
qed

text \<open>A full first page, then status 403 on page 2.\<close>

lemma forbidden_second_run:
  "fetchData forbidden_second ''octocat'' initial_state =
     ([GetUser, GetRepos 1, GetRepos 2],
      failed ((begin_attempt initial_state)\<lparr>userProfile := Some sample_profile\<rparr>) RateLimited)"
proof -
  have t: "trim ''octocat'' \<noteq> []" by (simp add: trim_def white_space_def)
  have p1: "page_ok (page_response forbidden_second) (Suc 0)"
    "\<not> length (page_items (page_response forbidden_second) (Suc 0)) < 100"
    by (simp_all add: forbidden_second_def page_ok_def page_items_def ok_def)
  have p2: "\<not> page_ok (page_response forbidden_second) (Suc (Suc 0))"
    "page_error (page_response forbidden_second) (Suc (Suc 0)) = RateLimited"
    by (simp_all add: forbidden_second_def page_ok_def page_error_def ok_def classify_response_def)
  have "fetchPages 100 10 (page_response forbidden_second) 1 [] [] = ([1, 2], Inl RateLimited)"
    using p1 p2 by (simp add: fetchPages_continue fetchPages_fail)
  then show ?thesis
    using t by (simp add: fetchData_pages[where status=200 and statusText="''OK''" and profile=sample_profile]
          forbidden_second_def ok_def)
qed

theorem page_failure_aborts_witness:
  "fst (fetchData forbidden_second ''octocat'' initial_state) = [GetUser, GetRepos 1, GetRepos 2]
   \<and> error (snd (fetchData forbidden_second ''octocat'' initial_state)) = Some (message RateLimited)
   \<and> data (snd (fetchData forbidden_second ''octocat'' initial_state)) = None
   \<and> repoCount (snd (fetchData forbidden_second ''octocat'' initial_state)) = 0"
proof -
  note r = forbidden_second_run
  have m: "GetRepos 2 \<in> set [GetUser, GetRepos 1, GetRepos 2]" by simp
  have p: "page_response forbidden_second 2 = Response 403 ''Forbidden'' []"
    by (simp add: forbidden_second_def)
  have nok: "\<not> ok 403" by (simp add: ok_def)
  from page_failure_aborts[OF r m p nok] show ?thesis
    unfolding r by (simp add: classify_response_def failed_def begin_attempt_def initial_state_def)
qed

section \<open>Decimal digits\<close>

lemma digit_value: "d < 10 \<Longrightarrow> (of_char (''0123456789'' ! d) :: nat) = 48 + d"
proof -
  assume "d < 10"
  then have "d = 0 \<or> d = 1 \<or> d = 2 \<or> d = 3 \<or> d = 4 \<or> d = 5 \<or> d = 6 \<or> d = 7
    \<or> d = 8 \<or> d = 9" by arith
  then show ?thesis by (elim disjE) simp_all
qed

lemma nat_of_digits_snoc:
  "nat_of_digits (s @ [c]) = 10 * nat_of_digits s + (of_char c - 48)"
  by (simp add: nat_of_digits_def)

lemma nat_of_digits_string_of_nat: "nat_of_digits (string_of_nat n) = n"
proof (induction n rule: string_of_nat.induct)
  case (1 n)
  show ?case
  proof (cases "n < 10")
    case True
    then show ?thesis
      by (simp add: string_of_nat.simps[of n] nat_of_digits_def digit_value)
  next
    case False
    then have "nat_of_digits (string_of_nat (n div 10)) = n div 10"
      using "1.IH" by simp
    then show ?thesis
      using False
      by (simp add: string_of_nat.simps[of n] nat_of_digits_snoc digit_value)
  qed
qed

section \<open>Classification of failed responses\<close>

text \<open>
  Claim C6. A response with a status outside 200 to 299 is classified in the same way
  for the profile request and for a page request: 404 is \<open>NotFound\<close>, 403 is
  \<open>RateLimited\<close>, 401 is \<open>Unauthorized\<close>, and any other status is
  \<open>Unclassified\<close>, whose message holds the decimal status and the status text. A
  failed profile request ends \<open>fetchData\<close> with that error after the one request, and
  a failed page request ends it with that error's message in the state.
\<close>

theorem error_classification:
  assumes "\<not> ok status"
  shows "classify_userResponse status statusText = classify_response status statusText
    \<and> (status = 404 \<longrightarrow> classify_response status statusText = NotFound)
    \<and> (status = 403 \<longrightarrow> classify_response status statusText = RateLimited)
    \<and> (status = 401 \<longrightarrow> classify_response status statusText = Unauthorized)
    \<and> (status \<noteq> 404 \<and> status \<noteq> 403 \<and> status \<noteq> 401 \<longrightarrow>
         classify_response status statusText = Unclassified status statusText
         \<and> message (classify_response status statusText) =
             ''GitHub API Error: '' @ string_of_nat status @ '' '' @ statusText
         \<and> nat_of_digits (string_of_nat status) = status)
    \<and> (trim userToFetch \<noteq> [] \<and> user_response src = Response status statusText profile \<longrightarrow>
         fetchData src userToFetch s =
           ([GetUser], failed (begin_attempt s) (classify_userResponse status statusText)))
    \<and> (GetRepos p \<in> set (fst (fetchData src userToFetch s))
         \<and> page_response src p = Response status statusText repos \<longrightarrow>
         error (snd (fetchData src userToFetch s)) =
           Some (message (classify_response status statusText)))"
proof -
  have a: "classify_userResponse status statusText = classify_response status statusText"
    by (simp add: classify_userResponse_def classify_response_def)
  have b: "status = 404 \<longrightarrow> classify_response status statusText = NotFound"
    "status = 403 \<longrightarrow> classify_response status statusText = RateLimited"
    "status = 401 \<longrightarrow> classify_response status statusText = Unauthorized"
    by (simp_all add: classify_response_def)
  have c: "status \<noteq> 404 \<and> status \<noteq> 403 \<and> status \<noteq> 401 \<longrightarrow>
         classify_response status statusText = Unclassified status statusText
         \<and> message (classify_response status statusText) =
             ''GitHub API Error: '' @ string_of_nat status @ '' '' @ statusText
         \<and> nat_of_digits (string_of_nat status) = status"
    by (simp add: classify_response_def nat_of_digits_string_of_nat)
  have d: "trim userToFetch \<noteq> [] \<and> user_response src = Response status statusText profile \<longrightarrow>
         fetchData src userToFetch s =
           ([GetUser], failed (begin_attempt s) (classify_userResponse status statusText))"
    using assms by (simp add: fetchData_user_failed)
  have e: "error (snd (fetchData src userToFetch s)) =
           Some (message (classify_response status statusText))"
    if h: "GetRepos p \<in> set (fst (fetchData src userToFetch s))
         \<and> page_response src p = Response status statusText repos"
  proof -
    let ?run = "fetchPages 100 10 (page_response src) 1 [] []"
    from h obtain ust utx uprofile where u:
      "trim userToFetch \<noteq> []" "user_response src = Response ust utx uprofile" "ok ust"
      "p \<in> set (fst ?run)"
      by (blast elim: fetchData_page_requested)
    have bad: "\<not> page_ok (page_response src) p"
      using h assms by (simp add: page_ok_def)
    have err: "page_error (page_response src) p = classify_response status statusText"
      using h by (simp add: page_error_def)
    from fetchPages_failed_page[OF u(4) bad] err
    have "snd ?run = Inl (classify_response status statusText)" by simp
    then show ?thesis
      by (simp add: fetchData_pages[OF u(1,2,3)] failed_def)
  qed
  from a b c d e show ?thesis by blast
qed

lemma string_of_nat_500: "string_of_nat 500 = ''500''"
  by (simp add: string_of_nat.simps[of 500] string_of_nat.simps[of 50] string_of_nat.simps[of 5])

theorem error_classification_witness:
  "classify_userResponse 500 ''Internal Server Error'' = Unclassified 500 ''Internal Server Error''
   \<and> message (classify_response 500 ''Internal Server Error'') =
       ''GitHub API Error: 500 Internal Server Error''
   \<and> fetchData server_error ''octocat'' initial_state =
       ([GetUser], failed (begin_attempt initial_state) (Unclassified 500 ''Internal Server Error''))"
proof -
  have nok: "\<not> ok 500" by (simp add: ok_def)
  have t: "trim ''octocat'' \<noteq> []" by (simp add: trim_def white_space_def)
  have u: "user_response server_error = Response 500 ''Internal Server Error'' sample_profile"
    by (simp add: server_error_def)
  from error_classification[OF nok, of "''Internal Server Error''" "''octocat''" server_error
      sample_profile initial_state] t u
  show ?thesis by (simp add: string_of_nat_500)
qed

section \<open>After the page loop\<close>

lemma count_repo_no_language: "\<not> has_language repo \<Longrightarrow> count_repo acc repo = acc"
  by (cases acc) (simp add: has_language_def split: option.splits)

lemma count_repo_hasLang:
  "snd (count_repo (langMap, hasLang) repo) = (hasLang \<or> has_language repo)"
  by (simp add: has_language_def split: option.splits)

lemma foldl_count_repo_hasLang:
  "snd (foldl count_repo (langMap, hasLang) repos) = (hasLang \<or> (\<exists>r\<in>set repos. has_language r))"
proof (induction repos arbitrary: langMap hasLang)
  case Nil
  then show ?case by simp
next
  case (Cons r repos)
  obtain langMap' hasLang' where step: "count_repo (langMap, hasLang) r = (langMap', hasLang')"
    by (cases "count_repo (langMap, hasLang) r")
  then have "hasLang' = (hasLang \<or> has_language r)"
    using count_repo_hasLang[of langMap hasLang r] by simp
  then show ?case using Cons.IH[of langMap' hasLang'] step by auto
qed

lemma hasLang_iff: "snd (count_languages allRepos) = (\<exists>r\<in>set allRepos. has_language r)"
  by (simp add: count_languages_def foldl_count_repo_hasLang)

lemma foldl_count_repo_filter:
  "foldl count_repo acc repos = foldl count_repo acc (filter has_language repos)"
  by (induction repos arbitrary: acc) (simp_all add: count_repo_no_language)

lemma after_loop_empty: "after_loop engine [] s = failed (s\<lparr>repoCount := 0\<rparr>) EmptyResult"
  by (simp add: after_loop_def)

lemma after_loop_no_language:
  "allRepos \<noteq> [] \<Longrightarrow> \<not> (\<exists>r\<in>set allRepos. has_language r) \<Longrightarrow>
   after_loop engine allRepos s = failed (s\<lparr>repoCount := length allRepos\<rparr>) NoLanguageData"
  by (simp add: after_loop_def Let_def split_beta hasLang_iff)

lemma after_loop_success:
  "allRepos \<noteq> [] \<Longrightarrow> \<exists>r\<in>set allRepos. has_language r \<Longrightarrow>
   after_loop engine allRepos s =
     s\<lparr>repoCount := length allRepos, repoStats := compute_stats allRepos,
       topRepos := top5Repos engine allRepos,
       data := Some (processedData engine (fst (count_languages allRepos))), loading := False\<rparr>"
  by (simp add: after_loop_def Let_def split_beta hasLang_iff)

lemma after_loop_error:
  "error (after_loop engine allRepos s) =
     (if allRepos = [] then Some (message EmptyResult)
      else if \<not> (\<exists>r\<in>set allRepos. has_language r) then Some (message NoLanguageData)
      else error s)"
  by (simp add: after_loop_empty after_loop_no_language after_loop_success failed_def)

lemma after_loop_failed_fields:
  "error (after_loop engine allRepos s) \<noteq> error s \<Longrightarrow>
   data (after_loop engine allRepos s) = data s \<and> topRepos (after_loop engine allRepos s) = topRepos s
   \<and> repoStats (after_loop engine allRepos s) = repoStats s \<and> loading (after_loop engine allRepos s) = False
   \<and> userProfile (after_loop engine allRepos s) = userProfile s"
  by (cases "allRepos = []"; cases "\<exists>r\<in>set allRepos. has_language r")
     (simp_all add: after_loop_empty after_loop_no_language after_loop_success failed_def)

lemma single_page_run:
  "length repos < 100 \<Longrightarrow>
   fetchPages 100 10 (page_response (single_page repos)) 1 [] [] = ([1], Inr repos)"
  using fetchPages_stop[of "page_response (single_page repos)" 1 100 10 "[]" "[]"]
  by (simp add: single_page_def page_ok_def page_items_def ok_def)

lemma fetchData_single_page:
  "trim userToFetch \<noteq> [] \<Longrightarrow> length repos < 100 \<Longrightarrow>
   fetchData (single_page repos) userToFetch s =
     ([GetUser, GetRepos 1],
      after_loop in_place repos ((begin_attempt s)\<lparr>userProfile := Some sample_profile\<rparr>))"
proof -
  assume t: "trim userToFetch \<noteq> []" and l: "length repos < 100"
  have u: "user_response (single_page repos) = Response 200 ''OK'' sample_profile"
    by (simp add: single_page_def)
  have k: "ok 200" by (simp add: ok_def)
  have e: "sort_order (single_page repos) = in_place"
    by (simp add: single_page_def)
  show ?thesis
    unfolding fetchData_pages[OF t u k] single_page_run[OF l] e by simp
qed

lemma trim_octocat: "trim ''octocat'' \<noteq> []"
  by (simp add: trim_def white_space_def)

lemma trim_blank: "trim ''  '' = []"
  by (simp add: trim_def white_space_def)

section \<open>The phases of \<open>fetchData\<close>\<close>

text \<open>
  Claim C8. \<open>fetchData\<close> goes through its phases in order and stops at the first that
  fails. A user name that is empty after trimming gives the validation error and no
  request. Otherwise, once the profile request and the page loop have succeeded, an
  empty list of repositories gives \<open>EmptyResult\<close>, a non-empty list in which no record
  has a language gives \<open>NoLanguageData\<close>, and in the remaining case the state holds
  the aggregated result. A call that ends without an error has passed every phase.
\<close>

theorem fetch_phases:
  "(trim userToFetch = [] \<longrightarrow>
      fetchData src userToFetch s = ([], s\<lparr>error := Some (message ValidationError)\<rparr>))
   \<and> (trim userToFetch \<noteq> [] \<and> user_response src = Response status statusText profile
        \<and> ok status \<and> snd (fetchPages 100 10 (page_response src) 1 [] []) = Inr allRepos \<longrightarrow>
        (allRepos = [] \<longrightarrow>
           error (snd (fetchData src userToFetch s)) = Some (message EmptyResult))
        \<and> (allRepos \<noteq> [] \<and> (\<forall>r\<in>set allRepos. language r = None) \<longrightarrow>
           error (snd (fetchData src userToFetch s)) = Some (message NoLanguageData))
        \<and> (allRepos \<noteq> [] \<and> (\<exists>r\<in>set allRepos. has_language r) \<longrightarrow>
           snd (fetchData src userToFetch s) =
             \<lparr>loading = False, error = None,
              data = Some (processedData (sort_order src) (fst (count_languages allRepos))),
              userProfile = Some profile, topRepos = top5Repos (sort_order src) allRepos,
              repoStats = compute_stats allRepos, repoCount = length allRepos\<rparr>))
   \<and> (error (snd (fetchData src userToFetch s)) = None \<longrightarrow>
        trim userToFetch \<noteq> []
        \<and> (\<exists>status statusText profile allRepos.
              user_response src = Response status statusText profile \<and> ok status
              \<and> snd (fetchPages 100 10 (page_response src) 1 [] []) = Inr allRepos
              \<and> allRepos \<noteq> [] \<and> (\<exists>r\<in>set allRepos. has_language r)))"
proof -
  let ?run = "fetchPages 100 10 (page_response src) 1 [] []"
  let ?s' = "snd (fetchData src userToFetch s)"
  have a: "trim userToFetch = [] \<longrightarrow>
      fetchData src userToFetch s = ([], s\<lparr>error := Some (message ValidationError)\<rparr>)"
    by (simp add: fetchData_validation)
  have b: "(allRepos = [] \<longrightarrow> error ?s' = Some (message EmptyResult))
        \<and> (allRepos \<noteq> [] \<and> (\<forall>r\<in>set allRepos. language r = None) \<longrightarrow>
           error ?s' = Some (message NoLanguageData))
        \<and> (allRepos \<noteq> [] \<and> (\<exists>r\<in>set allRepos. has_language r) \<longrightarrow>
           ?s' =
             \<lparr>loading = False, error = None,
              data = Some (processedData (sort_order src) (fst (count_languages allRepos))),
              userProfile = Some profile, topRepos = top5Repos (sort_order src) allRepos,
              repoStats = compute_stats allRepos, repoCount = length allRepos\<rparr>)"
    if h: "trim userToFetch \<noteq> [] \<and> user_response src = Response status statusText profile
        \<and> ok status \<and> snd ?run = Inr allRepos"
  proof -
    let ?s1 = "(begin_attempt s)\<lparr>userProfile := Some profile\<rparr>"
    have s': "?s' = after_loop (sort_order src) allRepos ?s1"
      using h by (simp add: fetchData_pages)
    have b1: "allRepos = [] \<longrightarrow> error ?s' = Some (message EmptyResult)"
      by (simp add: s' after_loop_error)
    have b2: "allRepos \<noteq> [] \<and> (\<forall>r\<in>set allRepos. language r = None) \<longrightarrow>
           error ?s' = Some (message NoLanguageData)"
      by (simp add: s' after_loop_error has_language_def)
    have b3: "allRepos \<noteq> [] \<and> (\<exists>r\<in>set allRepos. has_language r) \<longrightarrow>
           ?s' =
             \<lparr>loading = False, error = None,
              data = Some (processedData (sort_order src) (fst (count_languages allRepos))),
              userProfile = Some profile, topRepos = top5Repos (sort_order src) allRepos,
              repoStats = compute_stats allRepos, repoCount = length allRepos\<rparr>"
      by (simp add: s' after_loop_success begin_attempt_def)
    from b1 b2 b3 show ?thesis by blast
  qed
  have c: "trim userToFetch \<noteq> []
        \<and> (\<exists>status statusText profile allRepos.
              user_response src = Response status statusText profile \<and> ok status
              \<and> snd ?run = Inr allRepos
              \<and> allRepos \<noteq> [] \<and> (\<exists>r\<in>set allRepos. has_language r))"
    if h: "error ?s' = None"
  proof -
    have ne: "trim userToFetch \<noteq> []"
      using h by (auto simp add: fetchData_validation)
    show ?thesis
    proof (cases "user_response src")
      case (Rejected m)
      with h ne show ?thesis by (simp add: fetchData_user_rejected failed_def)
    next
      case (Response ust utx uprofile)
      show ?thesis
      proof (cases "ok ust")
        case False
        with h ne Response show ?thesis by (simp add: fetchData_user_failed failed_def)
      next
        case True
        show ?thesis
        proof (cases "snd ?run")
          case (Inl e)
          with h ne Response True show ?thesis by (simp add: fetchData_pages failed_def)
        next
          case (Inr repos)
          with h ne Response True
          have "error (after_loop (sort_order src) repos ((begin_attempt s)\<lparr>userProfile := Some uprofile\<rparr>)) = None"
            by (simp add: fetchData_pages)
          then have "repos \<noteq> [] \<and> (\<exists>r\<in>set repos. has_language r)"
            by (auto simp add: after_loop_error split: if_splits)
          with ne Response True Inr show ?thesis by blast
        qed
      qed
    qed
  qed
  from a b c show ?thesis by blast
qed

theorem fetch_phases_witness:
  "fetchData (single_page []) ''  '' initial_state =
     ([], initial_state\<lparr>error := Some (message ValidationError)\<rparr>)
   \<and> error (snd (fetchData (single_page []) ''octocat'' initial_state)) =
       Some (message EmptyResult)
   \<and> error (snd (fetchData (single_page [repo_with None None]) ''octocat'' initial_state)) =
       Some (message NoLanguageData)
   \<and> error (snd (fetchData (single_page [repo_with (Some ''Go'') None]) ''octocat''
               initial_state)) = None"
proof -
  have u: "user_response (single_page repos) = Response 200 ''OK'' sample_profile" for repos
    by (simp add: single_page_def)
  have k: "ok 200" by (simp add: ok_def)
  have r0: "snd (fetchPages 100 10 (page_response (single_page [])) 1 [] []) = Inr []"
    using single_page_run[of "[]"] by simp
  have r1: "snd (fetchPages 100 10 (page_response (single_page [repo_with None None])) 1 [] [])
              = Inr [repo_with None None]"
    using single_page_run[of "[repo_with None None]"] by simp
  have r2: "snd (fetchPages 100 10 (page_response (single_page [repo_with (Some ''Go'') None])) 1 [] [])
              = Inr [repo_with (Some ''Go'') None]"
    using single_page_run[of "[repo_with (Some ''Go'') None]"] by simp
  have w1: "fetchData (single_page []) ''  '' initial_state =
     ([], initial_state\<lparr>error := Some (message ValidationError)\<rparr>)"
    using fetch_phases[of "''  ''" "single_page []" initial_state] trim_blank by simp
  have w2: "error (snd (fetchData (single_page []) ''octocat'' initial_state)) =
       Some (message EmptyResult)"
    using fetch_phases[of "''octocat''" "single_page []" initial_state 200 "''OK''"
        sample_profile "[]"] trim_octocat u k r0 by simp
  have w3: "error (snd (fetchData (single_page [repo_with None None]) ''octocat'' initial_state)) =
       Some (message NoLanguageData)"
    using fetch_phases[of "''octocat''" "single_page [repo_with None None]" initial_state 200
        "''OK''" sample_profile "[repo_with None None]"] trim_octocat u k r1
    by (simp add: repo_with_def)
  have w4: "error (snd (fetchData (single_page [repo_with (Some ''Go'') None]) ''octocat''
               initial_state)) = None"
    using fetch_phases[of "''octocat''" "single_page [repo_with (Some ''Go'') None]" initial_state
        200 "''OK''" sample_profile "[repo_with (Some ''Go'') None]"] trim_octocat u k r2
    by (simp add: repo_with_def has_language_def)
  from w1 w2 w3 w4 show ?thesis by blast
qed

section \<open>What a failed call leaves in the state\<close>

lemma begin_attempt_idem: "begin_attempt (begin_attempt s) = begin_attempt s"
  by (simp add: begin_attempt_def)

lemma fetchData_from_cleared:
  "trim userToFetch \<noteq> [] \<Longrightarrow>
   fetchData src userToFetch s = fetchData src userToFetch (begin_attempt s)"
  unfolding fetchData_def begin_attempt_idem by simp

lemma fetchData_failure_fields:
  assumes "trim userToFetch \<noteq> []" and "error (snd (fetchData src userToFetch s)) \<noteq> None"
  shows "data (snd (fetchData src userToFetch s)) = None
    \<and> loading (snd (fetchData src userToFetch s)) = False
    \<and> topRepos (snd (fetchData src userToFetch s)) = topRepos s
    \<and> repoStats (snd (fetchData src userToFetch s)) = repoStats s"
proof (cases "user_response src")
  case (Rejected m)
  with assms(1) show ?thesis
    by (simp add: fetchData_user_rejected failed_def begin_attempt_def)
next
  case (Response status statusText profile)
  show ?thesis
  proof (cases "ok status")
    case False
    with assms(1) Response show ?thesis
      by (simp add: fetchData_user_failed failed_def begin_attempt_def)
  next
    case True
    let ?s1 = "(begin_attempt s)\<lparr>userProfile := Some profile\<rparr>"
    show ?thesis
    proof (cases "snd (fetchPages 100 10 (page_response src) 1 [] [])")
      case (Inl e)
      with assms(1) Response True show ?thesis
        by (simp add: fetchData_pages failed_def begin_attempt_def)
    next
      case (Inr allRepos)
      with assms Response True have s': "snd (fetchData src userToFetch s) = after_loop (sort_order src) allRepos ?s1"
        and e: "error (after_loop (sort_order src) allRepos ?s1) \<noteq> error ?s1"
        by (simp_all add: fetchData_pages begin_attempt_def)
      from after_loop_failed_fields[OF e] show ?thesis
        by (simp add: s' begin_attempt_def)
    qed
  qed
qed

text \<open>
  Claim C9, as amended. A call that passes validation and then fails at any phase
  leaves \<open>data\<close> \<open>null\<close>, so that the results section, rendered under
  \<open>data && userProfile\<close>, shows nothing, and it leaves \<open>topRepos\<close> and
  \<open>repoStats\<close> as they were before the call. A call that passes validation starts
  from the state with \<open>data\<close>, \<open>userProfile\<close> and \<open>error\<close> cleared: its outcome
  does not depend on what they held. A call that validation rejects changes nothing but
  \<open>error\<close>.
\<close>

theorem failure_leaves_no_results:
  "(trim userToFetch \<noteq> [] \<and> error (snd (fetchData src userToFetch s)) \<noteq> None \<longrightarrow>
      data (snd (fetchData src userToFetch s)) = None
      \<and> \<not> results_shown (snd (fetchData src userToFetch s))
      \<and> loading (snd (fetchData src userToFetch s)) = False
      \<and> topRepos (snd (fetchData src userToFetch s)) = topRepos s
      \<and> repoStats (snd (fetchData src userToFetch s)) = repoStats s)
   \<and> (trim userToFetch \<noteq> [] \<longrightarrow>
        fetchData src userToFetch s = fetchData src userToFetch (begin_attempt s)
        \<and> data (begin_attempt s) = None \<and> userProfile (begin_attempt s) = None
        \<and> error (begin_attempt s) = None)
   \<and> (trim userToFetch = [] \<longrightarrow>
        snd (fetchData src userToFetch s) = s\<lparr>error := Some (message ValidationError)\<rparr>)"
proof -
  have a: "trim userToFetch \<noteq> [] \<and> error (snd (fetchData src userToFetch s)) \<noteq> None \<longrightarrow>
      data (snd (fetchData src userToFetch s)) = None
      \<and> \<not> results_shown (snd (fetchData src userToFetch s))
      \<and> loading (snd (fetchData src userToFetch s)) = False
      \<and> topRepos (snd (fetchData src userToFetch s)) = topRepos s
      \<and> repoStats (snd (fetchData src userToFetch s)) = repoStats s"
    using fetchData_failure_fields[of userToFetch src s] by (simp add: results_shown_def)
  have b: "trim userToFetch \<noteq> [] \<longrightarrow>
        fetchData src userToFetch s = fetchData src userToFetch (begin_attempt s)
        \<and> data (begin_attempt s) = None \<and> userProfile (begin_attempt s) = None
        \<and> error (begin_attempt s) = None"
    using fetchData_from_cleared[of userToFetch src s] by (simp add: begin_attempt_def)
  have c: "trim userToFetch = [] \<longrightarrow>
        snd (fetchData src userToFetch s) = s\<lparr>error := Some (message ValidationError)\<rparr>"
    by (simp add: fetchData_validation)
  from a b c show ?thesis by blast
qed

theorem failure_leaves_no_results_witness:
  "error (snd (fetchData forbidden_second ''octocat'' initial_state)) \<noteq> None
   \<and> \<not> results_shown (snd (fetchData forbidden_second ''octocat'' initial_state))
   \<and> topRepos (snd (fetchData forbidden_second ''octocat'' initial_state)) = []
   \<and> snd (fetchData forbidden_second ''  '' initial_state) =
       initial_state\<lparr>error := Some (message ValidationError)\<rparr>"
proof -
  have e: "error (snd (fetchData forbidden_second ''octocat'' initial_state)) \<noteq> None"
    by (simp add: forbidden_second_run failed_def)
  have ti: "topRepos initial_state = []" by (simp add: initial_state_def)
  from failure_leaves_no_results[of "''octocat''" forbidden_second initial_state, THEN conjunct1]
    e trim_octocat
  have w1: "\<not> results_shown (snd (fetchData forbidden_second ''octocat'' initial_state))
   \<and> topRepos (snd (fetchData forbidden_second ''octocat'' initial_state)) = []"
    using ti by simp
  from failure_leaves_no_results[of "''  ''" forbidden_second initial_state,
      THEN conjunct2, THEN conjunct2] trim_blank
  have w2: "snd (fetchData forbidden_second ''  '' initial_state) =
       initial_state\<lparr>error := Some (message ValidationError)\<rparr>"
    by simp
  from e w1 w2 show ?thesis by blast
qed

text \<open>
  The claim as stated fails in two ways. After a successful call, a call with a blank
  user name reports the validation error and leaves the results of the earlier call on
  display. And a call that fails after the profile request keeps the profile it fetched
  in the state, as a call that fails for want of language data keeps the number of
  repositories it fetched.
\<close>

theorem failure_leaves_no_results_counterexample:
  "results_shown
     (snd (fetchData (single_page []) ''  ''
        (snd (fetchData (single_page [repo_with (Some ''Go'') None]) ''octocat'' initial_state))))
   \<and> error
     (snd (fetchData (single_page []) ''  ''
        (snd (fetchData (single_page [repo_with (Some ''Go'') None]) ''octocat'' initial_state))))
     = Some (message ValidationError)
   \<and> userProfile (snd (fetchData forbidden_second ''octocat'' initial_state)) = Some sample_profile
   \<and> repoCount (snd (fetchData (single_page [repo_with None None]) ''octocat'' initial_state)) = 1"
proof -
  have good: "snd (fetchData (single_page [repo_with (Some ''Go'') None]) ''octocat'' initial_state)
      = after_loop in_place [repo_with (Some ''Go'') None]
          ((begin_attempt initial_state)\<lparr>userProfile := Some sample_profile\<rparr>)"
    by (simp add: fetchData_single_page trim_octocat)
  have lang: "\<exists>r\<in>set [repo_with (Some ''Go'') None]. has_language r"
    by (simp add: repo_with_def has_language_def)
  have shown: "results_shown (after_loop in_place [repo_with (Some ''Go'') None]
          ((begin_attempt initial_state)\<lparr>userProfile := Some sample_profile\<rparr>))"
    using lang by (simp add: after_loop_success results_shown_def)
  have a: "results_shown
     (snd (fetchData (single_page []) ''  ''
        (snd (fetchData (single_page [repo_with (Some ''Go'') None]) ''octocat'' initial_state))))"
    using shown by (simp add: good fetchData_validation trim_blank results_shown_def)
  have b: "error
     (snd (fetchData (single_page []) ''  ''
        (snd (fetchData (single_page [repo_with (Some ''Go'') None]) ''octocat'' initial_state))))
     = Some (message ValidationError)"
    by (simp add: fetchData_validation trim_blank)
  have c: "userProfile (snd (fetchData forbidden_second ''octocat'' initial_state)) = Some sample_profile"
    by (simp add: forbidden_second_run failed_def)
  have nolang: "\<not> (\<exists>r\<in>set [repo_with None None]. has_language r)"
    by (simp add: repo_with_def has_language_def)
  have d: "repoCount (snd (fetchData (single_page [repo_with None None]) ''octocat'' initial_state)) = 1"
    using nolang by (simp add: fetchData_single_page trim_octocat after_loop_no_language failed_def)
  from a b c d show ?thesis by blast
qed

section \<open>Rounding to the nearest double\<close>


lemma two_powi_less_iff: "(2::rat) powi a < 2 powi b \<longleftrightarrow> a < b"
proof
  assume l: "(2::rat) powi a < 2 powi b"
  show "a < b"
  proof (rule ccontr)
    assume "\<not> a < b"
    then have "b \<le> a" by simp
    then have "(2::rat) powi b \<le> 2 powi a" by (intro power_int_increasing) simp_all
    with l show False by simp
  qed
next
  assume "a < b"
  then show "(2::rat) powi a < 2 powi b" by (intro power_int_strict_increasing) simp_all
qed

lemma two_powi_le_iff: "(2::rat) powi a \<le> 2 powi b \<longleftrightarrow> a \<le> b"
  using two_powi_less_iff[of b a] by (simp add: not_less[symmetric])













section \<open>Totals and average\<close>











section \<open>The sort is the stable sort\<close>

lemma insert_sorted_insort_key:
  "(\<forall>y\<in>set ys. compare_le comparefn x y = (f x \<le> f y)) \<Longrightarrow>
   insert_sorted comparefn x ys = insort_key f x ys"
  by (induction ys) simp_all

lemma stable_sort_sort_key:
  "(\<forall>x\<in>set xs. \<forall>y\<in>set xs. compare_le comparefn x y = (f x \<le> f y)) \<Longrightarrow>
   stable_sort comparefn xs = sort_key f xs"
proof (induction xs)
  case Nil
  then show ?case by (simp add: stable_sort_def)
next
  case (Cons x xs)
  then have IH: "stable_sort comparefn xs = sort_key f xs" by simp
  have "stable_sort comparefn (x # xs) = insert_sorted comparefn x (stable_sort comparefn xs)"
    by (simp add: stable_sort_def)
  also have "\<dots> = insert_sorted comparefn x (sort_key f xs)"
    by (simp only: IH)
  also have "\<dots> = insort_key f x (sort_key f xs)"
    using Cons.prems by (intro insert_sorted_insort_key) simp
  also have "\<dots> = sort_key f (x # xs)"
    by (simp add: sort_key_def)
  finally show ?case .
qed

text \<open>A comparison function that returns the difference of two keys is consistent,
  and sorts in descending order of the key.\<close>

lemma consistent_key_difference:
  "(\<forall>x\<in>set xs. \<forall>y\<in>set xs. comparefn x y = Some (int (key y) - int (key x))) \<Longrightarrow>
   consistent comparefn xs"
  unfolding consistent_def below_zero_def above_zero_def by auto

lemma js_sort_key_difference:
  assumes "\<forall>x\<in>set xs. \<forall>y\<in>set xs. comparefn x y = Some (int (key y) - int (key x))"
  shows "js_sort engine comparefn xs = sort_key (\<lambda>x. - int (key x)) xs"
proof -
  have "js_sort engine comparefn xs = stable_sort comparefn xs"
    using consistent_key_difference[OF assms] by (simp add: js_sort_def)
  also have "\<dots> = sort_key (\<lambda>x. - int (key x)) xs"
    using assms by (intro stable_sort_sort_key) (simp add: compare_le_def)
  finally show ?thesis .
qed

lemma set_insert_sorted: "set (insert_sorted comparefn x ys) = insert x (set ys)"
  by (induction ys) auto

lemma set_stable_sort: "set (stable_sort comparefn xs) = set xs"
  by (induction xs) (simp_all add: stable_sort_def set_insert_sorted)

lemma set_arrange: "set (arrange xs positions) \<subseteq> set xs"
  by (auto simp: arrange_def)

lemma set_js_sort: "set (js_sort engine comparefn xs) \<subseteq> set xs"
  using set_arrange[of xs] by (simp add: js_sort_def set_stable_sort)





section \<open>The five most starred repositories\<close>



section \<open>The counting object holds the counts\<close>

lemma set_first_seen: "set (first_seen xs) = set xs"
  by (induction xs) auto

lemma distinct_first_seen: "distinct (first_seen xs)"
  by (induction xs) (auto simp: set_first_seen)

lemma first_seen_snoc:
  "first_seen (xs @ [x]) = (if x \<in> set xs then first_seen xs else first_seen xs @ [x])"
  by (induction xs) auto

lemma map_of_keyed:
  "map_of (map (\<lambda>k. (k, g k)) ks) l = (if l \<in> set ks then Some (g l) else None)"
  by (induction ks) auto

lemma update_keyed_new:
  "l \<notin> set ks \<Longrightarrow>
   AList.update l v (map (\<lambda>k. (k, g k)) ks) = map (\<lambda>k. (k, g k)) ks @ [(l, v)]"
  by (induction ks) auto

lemma update_keyed_old:
  "distinct ks \<Longrightarrow> l \<in> set ks \<Longrightarrow>
   AList.update l v (map (\<lambda>k. (k, g k)) ks) = map (\<lambda>k. (k, if k = l then v else g k)) ks"
  by (induction ks) auto

lemma languages_of_snoc:
  "languages_of (repos @ [r]) =
     (if has_language r then languages_of repos @ [the (language r)] else languages_of repos)"
  by (simp add: languages_of_def)

lemma count_languages_snoc:
  "count_languages (repos @ [r]) = count_repo (count_languages repos) r"
  by (simp add: count_languages_def)

lemma proto_not_undefined: "object_prototype ''__proto__'' \<noteq> Undefined"
  by (simp add: object_prototype_def)

lemma langMap_counts:
  assumes "\<forall>l\<in>set (languages_of repos). object_prototype l = Undefined"
  shows "fst (count_languages repos) =
     map (\<lambda>k. (k, Num (count_list (languages_of repos) k))) (first_seen (languages_of repos))"
  using assms
proof (induction repos rule: rev_induct)
  case Nil
  then show ?case by (simp add: count_languages_def languages_of_def)
next
  case (snoc r repos)
  let ?ls = "languages_of repos"
  let ?ks = "first_seen ?ls"
  let ?obj = "map (\<lambda>k. (k, Num (count_list ?ls k))) ?ks"
  show ?case
  proof (cases "has_language r")
    case False
    then have "\<forall>l\<in>set ?ls. object_prototype l = Undefined"
      using snoc.prems by (simp add: languages_of_snoc)
    then have "fst (count_languages repos) = ?obj" by (rule snoc.IH)
    then show ?thesis
      using False by (simp add: count_languages_snoc count_repo_no_language languages_of_snoc)
  next
    case True
    then obtain l where l: "language r = Some l" "l \<noteq> []"
      by (auto simp: has_language_def split: option.splits)
    from True snoc.prems l have und: "object_prototype l = Undefined"
      and rest: "\<forall>l\<in>set ?ls. object_prototype l = Undefined"
      by (simp_all add: languages_of_snoc)
    from rest have IH: "fst (count_languages repos) = ?obj" by (rule snoc.IH)
    from und have np: "l \<noteq> ''__proto__''" using proto_not_undefined by auto
    obtain h where cl: "count_languages repos = (?obj, h)"
      using IH by (cases "count_languages repos") simp
    have ls': "languages_of (repos @ [r]) = ?ls @ [l]"
      using True l by (simp add: languages_of_snoc)
    have step: "fst (count_languages (repos @ [r])) =
                AList.update l (or_zero_plus_one (get_property ?obj l)) ?obj"
      using l np by (simp add: count_languages_snoc cl set_property_def)
    show ?thesis
    proof (cases "l \<in> set ?ls")
      case seen: True
      then have g: "get_property ?obj l = Num (count_list ?ls l)"
        by (simp add: get_property_def map_of_keyed set_first_seen)
      have "AList.update l (Num (count_list ?ls l + 1)) ?obj =
            map (\<lambda>k. (k, if k = l then Num (count_list ?ls l + 1) else Num (count_list ?ls k))) ?ks"
        using seen by (intro update_keyed_old) (simp_all add: distinct_first_seen set_first_seen)
      also have "\<dots> = map (\<lambda>k. (k, Num (count_list (?ls @ [l]) k))) ?ks"
        by (rule map_cong) auto
      finally show ?thesis
        using seen by (simp add: step g ls' first_seen_snoc)
    next
      case new: False
      then have g: "get_property ?obj l = Undefined"
        using und by (simp add: get_property_def map_of_keyed set_first_seen)
      have c0: "count_list ?ls l = 0" using new by (simp add: count_list_0_iff)
      have same: "(k, Num (count_list ?ls k)) = (k, Num (count_list (?ls @ [l]) k))"
        if "k \<in> set ?ks" for k
        using that new by (auto simp: set_first_seen)
      have "fst (count_languages (repos @ [r])) = AList.update l (Num 1) ?obj"
        by (simp add: step g)
      also have "\<dots> = ?obj @ [(l, Num 1)]"
        using new by (intro update_keyed_new) (simp add: set_first_seen)
      also have "?obj = map (\<lambda>k. (k, Num (count_list (?ls @ [l]) k))) ?ks"
        using same by (intro map_cong) simp_all
      also have "\<dots> @ [(l, Num 1)] = map (\<lambda>k. (k, Num (count_list (?ls @ [l]) k))) (?ks @ [l])"
        using c0 by simp
      also have "?ks @ [l] = first_seen (?ls @ [l])"
        using new by (simp add: first_seen_snoc)
      finally show ?thesis
        by (simp only: ls')
    qed
  qed
qed

lemma count_list_languages_of:
  "k \<noteq> [] \<Longrightarrow>
   count_list (languages_of repos) k = length (filter (\<lambda>r. language r = Some k) repos)"
  by (induction repos) (auto simp: languages_of_def has_language_def split: option.splits)

lemma set_languages_of:
  "set (languages_of repos) = {l. l \<noteq> [] \<and> (\<exists>r\<in>set repos. language r = Some l)}"
  by (auto simp: languages_of_def has_language_def split: option.splits) force

lemma length_languages_of: "length (languages_of repos) = length (filter has_language repos)"
  by (simp add: languages_of_def)

section \<open>The histogram\<close>

lemma set_property_order: "set (property_order ks) = set ks"
  by (auto simp: property_order_def)

lemma distinct_property_order: "distinct ks \<Longrightarrow> distinct (property_order ks)"
  by (auto simp: property_order_def)

lemma property_order_plain: "\<forall>k\<in>set ks. \<not> array_index k \<Longrightarrow> property_order ks = ks"
proof -
  assume h: "\<forall>k\<in>set ks. \<not> array_index k"
  then have "filter array_index ks = []" by (simp add: filter_empty_conv)
  moreover from h have "filter (\<lambda>k. \<not> array_index k) ks = ks" by (simp add: filter_id_conv)
  ultimately show ?thesis by (simp add: property_order_def)
qed

lemma sum_list_insort_key:
  "sum_list (map g (insort_key f x xs)) = g x + sum_list (map g xs)" for g :: "'a \<Rightarrow> nat"
  by (induction xs) simp_all

lemma sum_list_sort_key:
  "sum_list (map g (sort_key f xs)) = sum_list (map g xs)" for g :: "'a \<Rightarrow> nat"
  by (induction xs) (simp_all add: sum_list_insort_key)

lemma sum_list_filter_split:
  "sum_list (map g (filter P xs)) + sum_list (map g (filter (\<lambda>x. \<not> P x) xs)) = sum_list (map g xs)"
  for g :: "'a \<Rightarrow> nat"
  by (induction xs) simp_all

lemma sum_list_property_order:
  "sum_list (map g (property_order ks)) = sum_list (map g ks)" for g :: "string \<Rightarrow> nat"
  by (simp add: property_order_def sum_list_sort_key sum_list_filter_split)

lemma sum_count_first_seen:
  "sum_list (map (count_list xs) (first_seen xs)) = length xs"
proof -
  have "sum_list (map (count_list xs) (first_seen xs)) = sum (count_list xs) (set (first_seen xs))"
    by (rule sum_list_distinct_conv_sum_set) (rule distinct_first_seen)
  also have "\<dots> = length xs"
    by (simp add: set_first_seen sum_count_set)
  finally show ?thesis .
qed

lemma histogram_sorted_entries:
  assumes "\<forall>l\<in>set (languages_of repos). object_prototype l = Undefined"
  shows "histogram engine repos =
     sort_key (\<lambda>e. - int (count_of e))
       (map (\<lambda>k. \<lparr>lc_name = k, lc_value = Num (count_list (languages_of repos) k)\<rparr>)
          (property_order (first_seen (languages_of repos))))"
proof -
  let ?ls = "languages_of repos"
  let ?ks = "first_seen ?ls"
  let ?obj = "map (\<lambda>k. (k, Num (count_list ?ls k))) ?ks"
  let ?entry = "\<lambda>k. \<lparr>lc_name = k, lc_value = Num (count_list ?ls k)\<rparr>"
  have obj: "fst (count_languages repos) = ?obj"
    using assms by (rule langMap_counts)
  have keys: "Object_keys ?obj = property_order ?ks"
    by (simp add: Object_keys_def comp_def)
  have entries: "map (\<lambda>lang. \<lparr>lc_name = lang, lc_value = get_property ?obj lang\<rparr>) (property_order ?ks)
      = map ?entry (property_order ?ks)"
    by (rule map_cong) (simp_all add: get_property_def map_of_keyed set_property_order)
  have "js_sort engine (\<lambda>a b. js_minus (lc_value b) (lc_value a)) (map ?entry (property_order ?ks))
      = sort_key (\<lambda>e. - int (count_of e)) (map ?entry (property_order ?ks))"
    by (rule js_sort_key_difference) (simp add: count_of_def)
  then show ?thesis
    by (simp only: histogram_def processedData_def obj keys entries)
qed

text \<open>
  Claim C1, as amended. Let no record's language be the name of a property inherited
  from \<open>Object.prototype\<close>. Then the histogram has exactly one entry for each distinct
  language that is a non-empty string; the value of an entry is the number of records
  whose language is the entry's name; the values add up to the number of records whose
  language is a non-empty string; and the entries are in descending order of value.
  Entries of equal value are in the order in which \<open>Object.keys\<close> lists their names:
  the names that are array indices in ascending numeric order, then the other names in
  the order in which they were first seen. When no language is an array index, that is
  the first-seen order. When \<open>fetchData\<close> succeeds, this histogram is the \<open>data\<close>
  of the state.
\<close>

theorem histogram_counts_and_order:
  assumes "\<forall>r\<in>set repos. \<forall>l. language r = Some l \<longrightarrow> object_prototype l = Undefined"
  shows "distinct (map lc_name (histogram engine repos))
    \<and> set (map lc_name (histogram engine repos)) = {l. l \<noteq> [] \<and> (\<exists>r\<in>set repos. language r = Some l)}
    \<and> (\<forall>e\<in>set (histogram engine repos).
          lc_value e = Num (length (filter (\<lambda>r. language r = Some (lc_name e)) repos)))
    \<and> sum_list (map count_of (histogram engine repos)) = length (filter has_language repos)
    \<and> sorted_wrt (\<lambda>a b. count_of a \<ge> count_of b) (histogram engine repos)
    \<and> (\<forall>v. map lc_name (filter (\<lambda>e. lc_value e = Num v) (histogram engine repos)) =
            filter (\<lambda>k. length (filter (\<lambda>r. language r = Some k) repos) = v)
              (property_order (first_seen (languages_of repos))))
    \<and> ((\<forall>l\<in>set (languages_of repos). \<not> array_index l) \<longrightarrow>
        (\<forall>v. map lc_name (filter (\<lambda>e. lc_value e = Num v) (histogram engine repos)) =
            filter (\<lambda>k. length (filter (\<lambda>r. language r = Some k) repos) = v)
              (first_seen (languages_of repos))))
    \<and> (repos \<noteq> [] \<and> (\<exists>r\<in>set repos. has_language r) \<longrightarrow>
          data (after_loop engine repos s) = Some (histogram engine repos))"
proof -
  let ?ls = "languages_of repos"
  let ?ks = "property_order (first_seen ?ls)"
  let ?c = "count_list ?ls"
  let ?n = "\<lambda>k. length (filter (\<lambda>r. language r = Some k) repos)"
  let ?entry = "\<lambda>k. \<lparr>lc_name = k, lc_value = Num (?c k)\<rparr>"
  let ?f = "\<lambda>e. - int (count_of e)"
  have und: "\<forall>l\<in>set ?ls. object_prototype l = Undefined"
    using assms by (auto simp: set_languages_of)
  have H: "histogram engine repos = sort_key ?f (map ?entry ?ks)"
    using und by (rule histogram_sorted_entries)
  have ks_set: "set ?ks = set ?ls"
    by (simp add: set_property_order set_first_seen)
  have ks_distinct: "distinct ?ks"
    by (intro distinct_property_order distinct_first_seen)
  have cn: "?c k = ?n k" if "k \<in> set ?ks" for k
    using that ks_set by (intro count_list_languages_of) (auto simp: set_languages_of)
  have names_set: "set (map lc_name (histogram engine repos)) = set ?ks"
    by (simp add: H image_image)
  have "distinct (map lc_name (map ?entry ?ks))"
    using ks_distinct by (simp add: comp_def)
  then have dE: "distinct (map ?entry ?ks)" "inj_on lc_name (set (map ?entry ?ks))"
    by (simp_all only: distinct_map)
  have a: "distinct (map lc_name (histogram engine repos))"
    unfolding H using dE by (simp only: distinct_map distinct_sort set_sort)
  have b: "set (map lc_name (histogram engine repos)) = {l. l \<noteq> [] \<and> (\<exists>r\<in>set repos. language r = Some l)}"
    by (simp only: names_set ks_set set_languages_of)
  have c: "\<forall>e\<in>set (histogram engine repos). lc_value e = Num (?n (lc_name e))"
    using cn by (auto simp: H)
  have "sum_list (map count_of (histogram engine repos)) = sum_list (map count_of (map ?entry ?ks))"
    by (simp only: H sum_list_sort_key)
  also have "\<dots> = sum_list (map ?c ?ks)"
    by (simp add: comp_def count_of_def)
  also have "\<dots> = sum_list (map ?c (first_seen ?ls))"
    by (rule sum_list_property_order)
  also have "\<dots> = length ?ls"
    by (rule sum_count_first_seen)
  finally have d: "sum_list (map count_of (histogram engine repos)) = length (filter has_language repos)"
    by (simp add: length_languages_of)
  have "sorted (map ?f (sort_key ?f (map ?entry ?ks)))"
    by (rule sorted_sort_key)
  then have e: "sorted_wrt (\<lambda>a b. count_of a \<ge> count_of b) (histogram engine repos)"
    by (simp add: H sorted_map)
  have f: "map lc_name (filter (\<lambda>e. lc_value e = Num v) (histogram engine repos)) =
            filter (\<lambda>k. ?n k = v) ?ks" for v
  proof -
    have "filter (\<lambda>e. lc_value e = Num v) (sort_key ?f (map ?entry ?ks))
          = filter (\<lambda>e. ?f e = - int v) (sort_key ?f (map ?entry ?ks))"
      by (rule filter_cong) (auto simp: count_of_def)
    also have "\<dots> = filter (\<lambda>e. ?f e = - int v) (map ?entry ?ks)"
      by (rule sort_key_stable)
    also have "\<dots> = map ?entry (filter (\<lambda>k. ?c k = v) ?ks)"
      by (simp add: filter_map comp_def count_of_def)
    also have "filter (\<lambda>k. ?c k = v) ?ks = filter (\<lambda>k. ?n k = v) ?ks"
      using cn by (intro filter_cong) simp_all
    finally show ?thesis
      by (simp add: H comp_def)
  qed
  have g: "\<forall>v. map lc_name (filter (\<lambda>e. lc_value e = Num v) (histogram engine repos)) =
            filter (\<lambda>k. ?n k = v) (first_seen ?ls)"
    if "\<forall>l\<in>set ?ls. \<not> array_index l"
  proof -
    from that have "property_order (first_seen ?ls) = first_seen ?ls"
      by (intro property_order_plain) (simp add: set_first_seen)
    with f show ?thesis by simp
  qed
  have h: "repos \<noteq> [] \<and> (\<exists>r\<in>set repos. has_language r) \<longrightarrow>
          data (after_loop engine repos s) = Some (histogram engine repos)"
    by (simp add: after_loop_success histogram_def)
  from a b c d e f g h show ?thesis by blast
qed

lemma string_of_nat_digit: "n < 10 \<Longrightarrow> string_of_nat n = [''0123456789'' ! n]"
  by (simp add: string_of_nat.simps[of n])

lemmas evaluate_histogram =
  histogram_def processedData_def count_languages_def repo_with_def get_property_def
  set_property_def object_prototype_def object_prototype_functions_def Object_keys_def
  property_order_def array_index_def is_digit_def nat_of_digits_def string_of_nat_digit
  js_sort_def consistent_def below_zero_def above_zero_def stable_sort_def compare_le_def

lemma histogram_end_to_end:
  "histogram in_place end_to_end =
     [\<lparr>lc_name = ''Go'', lc_value = Num 2\<rparr>, \<lparr>lc_name = ''Rust'', lc_value = Num 1\<rparr>]"
  by (simp add: end_to_end_def evaluate_histogram)

theorem histogram_counts_and_order_witness:
  "histogram in_place end_to_end =
       [\<lparr>lc_name = ''Go'', lc_value = Num 2\<rparr>, \<lparr>lc_name = ''Rust'', lc_value = Num 1\<rparr>]
   \<and> sum_list (map count_of (histogram in_place end_to_end)) = 3
   \<and> sorted_wrt (\<lambda>a b. count_of a \<ge> count_of b) (histogram in_place end_to_end)"
proof -
  have h: "\<forall>r\<in>set end_to_end. \<forall>l. language r = Some l \<longrightarrow> object_prototype l = Undefined"
    by (simp add: end_to_end_def repo_with_def object_prototype_def object_prototype_functions_def)
  have n: "length (filter has_language end_to_end) = 3"
    by (simp add: end_to_end_def repo_with_def has_language_def)
  from histogram_counts_and_order[OF h] n
  have "sum_list (map count_of (histogram in_place end_to_end)) = 3"
    and "sorted_wrt (\<lambda>a b. count_of a \<ge> count_of b) (histogram in_place end_to_end)"
    by simp_all
  with histogram_end_to_end show ?thesis by blast
qed

text \<open>
  The claim as stated fails on three inputs. A record whose language is the empty
  string has a language that is not \<open>null\<close>, yet it gets no entry and is not counted.
  A language that is an array index, here \<open>1\<close>, comes before a language seen earlier
  with the same count. And the language \<open>__proto__\<close> gets no entry at all, while
  \<open>hasLang\<close> is set.
\<close>

theorem histogram_counts_and_order_counterexample:
  "histogram in_place [repo_with (Some []) None, repo_with (Some ''Go'') None] =
     [\<lparr>lc_name = ''Go'', lc_value = Num 1\<rparr>]
   \<and> histogram in_place [repo_with (Some ''Go'') None, repo_with (Some ''1'') None] =
     [\<lparr>lc_name = ''1'', lc_value = Num 1\<rparr>, \<lparr>lc_name = ''Go'', lc_value = Num 1\<rparr>]
   \<and> histogram in_place [repo_with (Some ''__proto__'') None] = []
   \<and> snd (count_languages [repo_with (Some ''__proto__'') None])"
  by (simp add: evaluate_histogram)

section \<open>The empty string as a language\<close>

lemma keys_count_repo:
  "fst ` set (fst (count_repo acc r)) \<subseteq> fst ` set (fst acc) \<union> set (languages_of [r])"
  by (cases acc)
     (auto simp: languages_of_def has_language_def set_property_def AList.dom_update
           split: option.splits if_splits)

lemma languages_of_Cons: "languages_of (r # repos) = languages_of [r] @ languages_of repos"
  by (simp add: languages_of_def)

lemma keys_foldl_count_repo:
  "fst ` set (fst (foldl count_repo acc repos)) \<subseteq> fst ` set (fst acc) \<union> set (languages_of repos)"
proof (induction repos arbitrary: acc)
  case Nil
  then show ?case by simp
next
  case (Cons r repos)
  have "fst ` set (fst (foldl count_repo (count_repo acc r) repos))
          \<subseteq> fst ` set (fst (count_repo acc r)) \<union> set (languages_of repos)"
    by (rule Cons.IH)
  also have "\<dots> \<subseteq> (fst ` set (fst acc) \<union> set (languages_of [r])) \<union> set (languages_of repos)"
    using keys_count_repo[of acc r] by blast
  finally show ?case
    by (simp add: languages_of_Cons[of r repos] Un_assoc)
qed

lemma names_histogram: "set (map lc_name (histogram engine repos)) \<subseteq> set (languages_of repos)"
proof -
  let ?obj = "fst (count_languages repos)"
  let ?entries = "map (\<lambda>lang. \<lparr>lc_name = lang, lc_value = get_property ?obj lang\<rparr>)
                    (Object_keys ?obj)"
  have "set (histogram engine repos) \<subseteq> set ?entries"
    unfolding histogram_def processedData_def by (rule set_js_sort)
  then have "set (map lc_name (histogram engine repos)) \<subseteq> set (map lc_name ?entries)"
    by auto
  also have "\<dots> = fst ` set ?obj"
    by (simp add: Object_keys_def set_property_order image_image)
  finally show ?thesis
    using keys_foldl_count_repo[of "([], False)" repos] by (simp add: count_languages_def)
qed

text \<open>
  Claim C10. A record whose language is the empty string is treated as one without a
  language: the callback leaves \<open>langMap\<close> and \<open>hasLang\<close> as they are, the counting
  is the counting of the records that have a language, and no entry of the histogram
  has the empty name. When the list is non-empty and every record's language is
  \<open>null\<close>, absent or empty, \<open>fetchData\<close> ends with \<open>NoLanguageData\<close> and sets no
  histogram.
\<close>

theorem empty_language_ignored:
  "count_repo acc (repo\<lparr>language := Some []\<rparr>) = acc
   \<and> count_repo acc (repo\<lparr>language := None\<rparr>) = acc
   \<and> count_languages allRepos = count_languages (filter has_language allRepos)
   \<and> [] \<notin> set (map lc_name (histogram engine allRepos))
   \<and> (allRepos \<noteq> [] \<and> (\<forall>r\<in>set allRepos. language r = None \<or> language r = Some []) \<longrightarrow>
        after_loop engine allRepos s = failed (s\<lparr>repoCount := length allRepos\<rparr>) NoLanguageData
        \<and> (trim userToFetch \<noteq> [] \<and> user_response src = Response status statusText profile
             \<and> ok status \<and> snd (fetchPages 100 10 (page_response src) 1 [] []) = Inr allRepos \<longrightarrow>
             error (snd (fetchData src userToFetch s0)) = Some (message NoLanguageData)
             \<and> data (snd (fetchData src userToFetch s0)) = None))"
proof -
  have a: "count_repo acc (repo\<lparr>language := Some []\<rparr>) = acc"
    "count_repo acc (repo\<lparr>language := None\<rparr>) = acc"
    by (simp_all add: count_repo_no_language has_language_def)
  have b: "count_languages allRepos = count_languages (filter has_language allRepos)"
    unfolding count_languages_def by (rule foldl_count_repo_filter)
  have c: "[] \<notin> set (map lc_name (histogram engine allRepos))"
    using names_histogram[of engine allRepos] by (auto simp: set_languages_of)
  have d: "after_loop engine allRepos s = failed (s\<lparr>repoCount := length allRepos\<rparr>) NoLanguageData
        \<and> (trim userToFetch \<noteq> [] \<and> user_response src = Response status statusText profile
             \<and> ok status \<and> snd (fetchPages 100 10 (page_response src) 1 [] []) = Inr allRepos \<longrightarrow>
             error (snd (fetchData src userToFetch s0)) = Some (message NoLanguageData)
             \<and> data (snd (fetchData src userToFetch s0)) = None)"
    if h: "allRepos \<noteq> [] \<and> (\<forall>r\<in>set allRepos. language r = None \<or> language r = Some [])"
  proof -
    from h have none: "\<not> (\<exists>r\<in>set allRepos. has_language r)"
      by (auto simp: has_language_def)
    from h have ne: "allRepos \<noteq> []" by simp
    note al = after_loop_no_language[OF ne none]
    show ?thesis
      by (auto simp add: al fetchData_pages failed_def begin_attempt_def)
  qed
  from a b c d show ?thesis by blast
qed

theorem empty_language_ignored_witness:
  "error (snd (fetchData (single_page [repo_with (Some []) None, repo_with None None])
                 ''octocat'' initial_state)) = Some (message NoLanguageData)
   \<and> data (snd (fetchData (single_page [repo_with (Some []) None, repo_with None None])
                 ''octocat'' initial_state)) = None"
proof -
  let ?rs = "[repo_with (Some []) None, repo_with None None]"
  have h: "?rs \<noteq> [] \<and> (\<forall>r\<in>set ?rs. language r = None \<or> language r = Some [])"
    by (simp add: repo_with_def)
  have u: "user_response (single_page ?rs) = Response 200 ''OK'' sample_profile"
    by (simp add: single_page_def)
  have k: "ok 200" by (simp add: ok_def)
  have r: "snd (fetchPages 100 10 (page_response (single_page ?rs)) 1 [] []) = Inr ?rs"
    using single_page_run[of ?rs] by simp
  from empty_language_ignored[where allRepos="?rs" and userToFetch="''octocat''"
      and src="single_page ?rs" and status=200 and statusText="''OK''"
      and profile=sample_profile and ?s0.0=initial_state, THEN conjunct2, THEN conjunct2, THEN conjunct2, THEN conjunct2]
    h trim_octocat u k r
  show ?thesis by blast
qed

end
